theory Spec2Isabelle
  imports Main
begin

section \<open>Jobs and values received from the server\<close>

text \<open>
  The dashboard is a client: it starts background jobs over HTTP and learns about them only
  by asking again. The server is not part of the verified code, so every answer of the
  server is a parameter of the model. A request either returns a value or throws; the
  client's handlers distinguish a thrown \<open>Error\<close> (which carries a message) from any
  other thrown value.
\<close>

datatype thrown = Error string | NonError

datatype job_status = Pending | Running | Completed | Failed | Cancelled

text \<open>
  The fields of \<open>result_json\<close> that the client reads are used only through
  \<open>value || 0\<close> and string interpolation. The model keeps the JSON scalars null,
  booleans, strings and those numbers that are integers of magnitude below \<open>2^53\<close>, which
  JavaScript holds exactly and prints digit by digit; \<open>JNum n\<close> stands for such a number
  only. Fractions, larger numbers, arrays and objects are outside the model. A key that is
  missing reads as \<open>undefined\<close>.
\<close>

datatype jsval = JNull | JBool bool | JNum int | JStr string

record Job =
  job_id :: string
  database_id :: int
  agent :: string
  status :: job_status
  progress :: int
  current_step :: "string option"
  total_steps :: int
  started_at :: "string option"
  completed_at :: "string option"
  error :: "string option"
  result_json :: "(string \<Rightarrow> jsval option) option"
  created_at :: string

definition terminal :: "job_status \<Rightarrow> bool" where
  "terminal s = (s = Completed \<or> s = Failed \<or> s = Cancelled)"

subsection \<open>JavaScript's truthiness and string conversion\<close>

fun truthy :: "jsval \<Rightarrow> bool" where
  "truthy JNull = False"
| "truthy (JBool b) = b"
| "truthy (JNum n) = (n \<noteq> 0)"
| "truthy (JStr s) = (s \<noteq> [])"

text \<open>\<open>field || 0\<close> on a field that may be missing.\<close>

definition or_zero :: "jsval option \<Rightarrow> jsval" where
  "or_zero v = (case v of None \<Rightarrow> JNum 0 | Some x \<Rightarrow> if truthy x then x else JNum 0)"

text \<open>\<open>s || d\<close> on a string that may be null: null and the empty string are both falsy.\<close>

definition or_else :: "string option \<Rightarrow> string \<Rightarrow> string" where
  "or_else s d = (case s of None \<Rightarrow> d | Some x \<Rightarrow> if x = [] then d else x)"

definition digit :: "nat \<Rightarrow> char" where
  "digit n = char_of (48 + n)"

function string_of_nat :: "nat \<Rightarrow> string" where
  "string_of_nat n = (if n < 10 then [digit n] else string_of_nat (n div 10) @ [digit (n mod 10)])"
  by pat_completeness auto
termination
  by (relation "measure id") auto

declare string_of_nat.simps [simp del]

definition string_of_int :: "int \<Rightarrow> string" where
  "string_of_int i = (if i < 0 then CHR ''-'' # string_of_nat (nat (- i)) else string_of_nat (nat i))"

fun to_string :: "jsval \<Rightarrow> string" where
  "to_string JNull = ''null''"
| "to_string (JBool b) = (if b then ''true'' else ''false'')"
| "to_string (JNum n) = string_of_int n"
| "to_string (JStr s) = s"

definition message_or :: "thrown \<Rightarrow> string \<Rightarrow> string" where
  \<comment> \<open>\<open>err instanceof Error ? err.message : d\<close>\<close>
  "message_or e d = (case e of Error m \<Rightarrow> m | NonError \<Rightarrow> d)"

section \<open>What the client does: requests, waits and status updates\<close>

text \<open>
  Every run is recorded as the list of things the client did, in order. A request is logged
  with what came back: the job id a start request returned (\<open>None\<close> when the request
  threw) and the status a poll observed (\<open>None\<close> when the poll threw).
\<close>

datatype AgentState = St_pending | St_running | St_success | St_error

record AgentStatus =
  state :: AgentState
  result :: "string option"

datatype event =
    RunExplorerBackground int "string option"
  | RunObserverBackground int "string option"
  | RunArchitectBackground int "string option"
  | RunGardenerBackground int "string option"
  | RunPartitionerBackground int "string option"
  | RunAllAgentsBackground int "string option"
  | GetJob string "job_status option"
  | CancelJob string
  | Delay nat
  | UpdateAgentStatus string AgentState "string option"
  | FetchData
  | OnAnalysisComplete

text \<open>
  The server as the client sees it: the answer to a start request for each agent, and the
  answer to the \<open>n\<close>-th poll of a job within one wait.
\<close>

record server =
  runBackground :: "string \<Rightarrow> thrown + string"
  getJob :: "string \<Rightarrow> nat \<Rightarrow> thrown + Job"

section \<open>The agent panel: \<open>pollJobStatus\<close>\<close>

definition pollInterval :: nat where
  "pollInterval = 1000"

definition maxAttempts :: nat where
  "maxAttempts = 600"

definition field :: "Job \<Rightarrow> string \<Rightarrow> jsval option" where
  "field job k = (case result_json job of None \<Rightarrow> None | Some r \<Rightarrow> r k)"

definition summary :: "string \<Rightarrow> Job \<Rightarrow> string" where
  "summary agentId job =
     (if result_json job = None then ''Completed''
      else if agentId = ''explorer'' then
        to_string (or_zero (field job ''anomalies_count'')) @ '' anomalies found''
      else if agentId = ''observer'' then
        to_string (or_zero (field job ''metrics_collected'')) @ '' metrics, '' @
        to_string (or_zero (field job ''signals_detected'')) @ '' signals''
      else if agentId = ''architect'' then
        to_string (or_zero (field job ''proposals_created'')) @ '' proposals created''
      else if agentId = ''gardener'' then
        to_string (or_zero (field job ''indexes_checked'')) @ '' indexes, '' @
        to_string (or_zero (field job ''tasks_count'')) @ '' tasks''
      else if agentId = ''partitioner'' then
        to_string (or_zero (field job ''recommendations_count'')) @ '' recommendations''
      else ''Completed'')"

text \<open>
  The loop of \<open>pollJobStatus\<close>, entered at poll number \<open>attempt\<close>. A poll that
  throws ends the wait with that exception; \<open>completed\<close> returns the summary,
  \<open>failed\<close> and \<open>cancelled\<close> throw; any other status sleeps for
  \<open>pollInterval\<close> milliseconds and polls again. Leaving the loop throws the timeout.
\<close>

function pollJobStatus_from ::
  "server \<Rightarrow> string \<Rightarrow> string \<Rightarrow> nat \<Rightarrow> (thrown + string) \<times> event list" where
  "pollJobStatus_from srv jobId agentId attempt =
     (if attempt < maxAttempts then
        (case getJob srv jobId attempt of
           Inl e \<Rightarrow> (Inl e, [GetJob jobId None])
         | Inr job \<Rightarrow>
             if status job = Completed then
               (Inr (summary agentId job), [GetJob jobId (Some (status job))])
             else if status job = Failed then
               (Inl (Error (or_else (error job) ''Job failed'')), [GetJob jobId (Some (status job))])
             else if status job = Cancelled then
               (Inl (Error ''Job cancelled''), [GetJob jobId (Some (status job))])
             else
               (let (r, tr) = pollJobStatus_from srv jobId agentId (Suc attempt)
                in (r, GetJob jobId (Some (status job)) # Delay pollInterval # tr)))
      else (Inl (Error ''Job timed out''), []))"
  by pat_completeness auto
termination
  by (relation "measure (\<lambda>(srv, jobId, agentId, attempt). maxAttempts - attempt)") auto

declare pollJobStatus_from.simps [simp del]

definition pollJobStatus :: "server \<Rightarrow> string \<Rightarrow> string \<Rightarrow> (thrown + string) \<times> event list" where
  "pollJobStatus srv jobId agentId = pollJobStatus_from srv jobId agentId 0"

section \<open>The agent panel: starting jobs, Stop, Run All\<close>

record agent_def =
  agent_id :: string
  agent_name :: string
  description :: string

text \<open>The panel's table of agents (presentation fields such as icon and colours left out).\<close>

definition agents :: "agent_def list" where
  "agents =
    [\<lparr>agent_id = ''explorer'', agent_name = ''Explorer'',
      description = ''Initial analysis, table classification, anomaly detection''\<rparr>,
     \<lparr>agent_id = ''observer'', agent_name = ''Observer'',
      description = ''Continuous monitoring, metrics collection, signal detection''\<rparr>,
     \<lparr>agent_id = ''architect'', agent_name = ''Architect'',
      description = ''Query analysis, index proposals with justifications''\<rparr>,
     \<lparr>agent_id = ''gardener'', agent_name = ''Gardener'',
      description = ''Index health monitoring, maintenance scheduling''\<rparr>,
     \<lparr>agent_id = ''partitioner'', agent_name = ''Partitioner'',
      description = ''Table partitioning analysis and recommendations (read-only)''\<rparr>]"

definition job_of :: "thrown + string \<Rightarrow> string option" where
  "job_of r = (case r of Inl e \<Rightarrow> None | Inr j \<Rightarrow> Some j)"

definition startAgentJob :: "server \<Rightarrow> int \<Rightarrow> string \<Rightarrow> (thrown + string) \<times> event list" where
  "startAgentJob srv databaseId agentId =
     (if agentId = ''explorer'' then
        (runBackground srv agentId, [RunExplorerBackground databaseId (job_of (runBackground srv agentId))])
      else if agentId = ''observer'' then
        (runBackground srv agentId, [RunObserverBackground databaseId (job_of (runBackground srv agentId))])
      else if agentId = ''architect'' then
        (runBackground srv agentId, [RunArchitectBackground databaseId (job_of (runBackground srv agentId))])
      else if agentId = ''gardener'' then
        (runBackground srv agentId, [RunGardenerBackground databaseId (job_of (runBackground srv agentId))])
      else if agentId = ''partitioner'' then
        (runBackground srv agentId, [RunPartitionerBackground databaseId (job_of (runBackground srv agentId))])
      else (Inl (Error (''Unknown agent: '' @ agentId)), []))"

text \<open>
  The component's state variables. A handler sees the values of the render it was created
  in; a setter changes the value that later renders see.
\<close>

record panel =
  agentStatus :: "string \<Rightarrow> AgentStatus option"
  runningAll :: bool
  currentStep :: int
  shouldStop :: bool
  currentJobId :: "string option"

definition updateAgentStatus :: "panel \<Rightarrow> string \<Rightarrow> AgentState \<Rightarrow> string option \<Rightarrow> panel" where
  "updateAgentStatus p agentId st res =
     p\<lparr>agentStatus := (agentStatus p)(agentId \<mapsto> \<lparr>state = st, result = res\<rparr>)\<rparr>"

text \<open>
  The Stop button: it sets the \<open>shouldStop\<close> state and asks the server to cancel the job
  the panel is waiting for, if there is one; a failure of that request is ignored.
\<close>

definition stopAnalysis :: "panel \<Rightarrow> panel \<times> event list" where
  "stopAnalysis p =
     (p\<lparr>shouldStop := True\<rparr>,
      (case currentJobId p of
         None \<Rightarrow> []
       | Some j \<Rightarrow> if j = [] then [] else [CancelJob j]))"

text \<open>
  When, if at all, the user presses Stop during one pass of the loop: while the start request
  is unanswered, or while the job is awaited.
\<close>

datatype press = NoPress | DuringStart | DuringWait

text \<open>
  One pass of the body of the loop of \<open>runAllAgentsSequentially\<close> for the agent at
  index \<open>i\<close>, after the stop check. A press runs \<open>stopAnalysis\<close> on the state of that
  moment: during the start request the panel holds no job id of this pass yet, during the
  wait it holds the id the start request returned. \<open>pollJobStatus\<close> reads no state of the
  component, so a press during the wait is placed before the first poll; when the start
  request throws there is no wait and such a press does not happen.
\<close>

definition runStep :: "server \<Rightarrow> int \<Rightarrow> press \<Rightarrow> nat \<Rightarrow> string \<Rightarrow> panel \<Rightarrow> panel \<times> event list" where
  "runStep srv databaseId click i agentId p =
     (let p1 = updateAgentStatus (p\<lparr>currentStep := int i\<rparr>) agentId St_running None;
          (started, tr1) = startAgentJob srv databaseId agentId;
          (p1', trs) = (if click = DuringStart then stopAnalysis p1 else (p1, []))
      in case started of
           Inl e \<Rightarrow>
             (let p3 = updateAgentStatus p1' agentId St_error (Some (message_or e ''Failed''))
              in (p3\<lparr>currentJobId := None\<rparr>,
                  UpdateAgentStatus agentId St_running None # tr1 @ trs @
                  [UpdateAgentStatus agentId St_error (Some (message_or e ''Failed''))]))
         | Inr jobId \<Rightarrow>
             (let p2 = p1'\<lparr>currentJobId := Some jobId\<rparr>;
                  (p3, trc) = (if click = DuringWait then stopAnalysis p2 else (p2, []));
                  (polled, tr2) = pollJobStatus srv jobId agentId;
                  (st, res) = (case polled of
                                 Inr r \<Rightarrow> (St_success, Some r)
                               | Inl e \<Rightarrow> (St_error, Some (message_or e ''Failed'')));
                  p4 = updateAgentStatus p3 agentId st res
              in (p4\<lparr>currentJobId := None\<rparr>,
                  UpdateAgentStatus agentId St_running None # tr1 @ trs @ trc @ tr2 @
                  [UpdateAgentStatus agentId st res])))"

text \<open>The inner loop that marks the agents from index \<open>j\<close> on as stopped.\<close>

function markStopped :: "nat \<Rightarrow> panel \<Rightarrow> panel \<times> event list" where
  "markStopped j p =
     (if j < length agents then
        (let (p', tr) = markStopped (Suc j)
                          (updateAgentStatus p (agent_id (agents ! j)) St_error (Some ''Stopped by user''))
         in (p', UpdateAgentStatus (agent_id (agents ! j)) St_error (Some ''Stopped by user'') # tr))
      else (p, []))"
  by pat_completeness auto
termination
  by (relation "measure (\<lambda>(j, p). length agents - j)") auto

declare markStopped.simps [simp del]

text \<open>
  The outer loop. \<open>stop\<close> is the \<open>shouldStop\<close> that the running function reads: the
  constant of the render in which the handler was created. \<open>setShouldStop\<close> changes the
  component's state for later renders, never this constant, so the same value is read at
  every pass.
\<close>

function runLoop ::
  "server \<Rightarrow> int \<Rightarrow> (nat \<Rightarrow> press) \<Rightarrow> bool \<Rightarrow> nat \<Rightarrow> panel \<Rightarrow> panel \<times> event list" where
  "runLoop srv databaseId click stop i p =
     (if i < length agents then
        (if stop then markStopped i p
         else
           (let (p', tr) = runStep srv databaseId (click i) i (agent_id (agents ! i)) p;
                (p'', tr') = runLoop srv databaseId click stop (Suc i) p'
            in (p'', tr @ tr')))
      else (p, []))"
  by pat_completeness auto
termination
  by (relation "measure (\<lambda>(srv, databaseId, click, stop, i, p). length agents - i)") auto

declare runLoop.simps [simp del]

definition initialStatus :: "string \<Rightarrow> AgentStatus option" where
  "initialStatus = map_of (map (\<lambda>a. (agent_id a, \<lparr>state = St_pending, result = None\<rparr>)) agents)"

text \<open>
  \<open>runAllAgentsSequentially\<close>, called as the handler of the render whose state is
  \<open>p\<close>. \<open>onAnalysisComplete\<close> says whether the optional callback was supplied; it
  is the last thing the function does, after every change of state. \<open>click\<close> gives the
  press of Stop, if any, for each pass of the loop.
\<close>

definition runAllAgentsSequentially ::
  "server \<Rightarrow> int \<Rightarrow> bool \<Rightarrow> (nat \<Rightarrow> press) \<Rightarrow> panel \<Rightarrow> panel \<times> event list" where
  "runAllAgentsSequentially srv databaseId onAnalysisComplete click p =
     (let p0 = p\<lparr>runningAll := True, currentStep := 0, shouldStop := False,
                 agentStatus := initialStatus\<rparr>;
          (p1, tr) = runLoop srv databaseId click (shouldStop p) 0 p0
      in (p1\<lparr>currentStep := - 1, runningAll := False, shouldStop := False\<rparr>,
          tr @ (if onAnalysisComplete then [OnAnalysisComplete] else [])))"

section \<open>The database page: \<open>runAnalysis\<close>\<close>

record detail_page =
  analyzing :: bool
  loading :: bool
  page_error :: "string option"

text \<open>
  \<open>fetchData\<close> reloads what the page shows. It clears the error, and its own handler
  turns a failure of its first request into the page's error; \<open>getDatabase\<close> is the
  outcome of that request (\<open>None\<close> when it succeeds). Every later request of
  \<open>fetchData\<close> swallows its own failure.
\<close>

definition fetchData :: "thrown option \<Rightarrow> detail_page \<Rightarrow> detail_page \<times> event list" where
  "fetchData getDatabase pg =
     (case getDatabase of
        None \<Rightarrow> (pg\<lparr>loading := False, page_error := None\<rparr>, [FetchData])
      | Some e \<Rightarrow>
          (pg\<lparr>loading := False, page_error := Some (message_or e ''Failed to fetch data'')\<rparr>,
           [FetchData]))"

text \<open>
  The polling loop inside \<open>runAnalysis\<close>, entered at poll number \<open>attempt\<close>. The
  result is the exception that leaves the loop, or \<open>None\<close> when the loop is left by
  \<open>break\<close> or because \<open>attempt\<close> reached \<open>maxAttempts\<close>.
\<close>

function runAnalysis_from :: "server \<Rightarrow> string \<Rightarrow> nat \<Rightarrow> thrown option \<times> event list" where
  "runAnalysis_from srv jobId attempt =
     (if attempt < maxAttempts then
        (case getJob srv jobId attempt of
           Inl e \<Rightarrow> (Some e, [GetJob jobId None])
         | Inr job \<Rightarrow>
             if status job = Completed then (None, [GetJob jobId (Some (status job))])
             else if status job = Failed then
               (Some (Error (or_else (error job) ''Analysis failed'')), [GetJob jobId (Some (status job))])
             else if status job = Cancelled then
               (Some (Error ''Analysis cancelled''), [GetJob jobId (Some (status job))])
             else
               (let (r, tr) = runAnalysis_from srv jobId (Suc attempt)
                in (r, GetJob jobId (Some (status job)) # Delay pollInterval # tr)))
      else (None, []))"
  by pat_completeness auto
termination
  by (relation "measure (\<lambda>(srv, jobId, attempt). maxAttempts - attempt)") auto

declare runAnalysis_from.simps [simp del]

definition runAnalysis ::
  "server \<Rightarrow> thrown option \<Rightarrow> int option \<Rightarrow> detail_page \<Rightarrow> detail_page \<times> event list" where
  "runAnalysis srv getDatabase databaseId pg =
     (case databaseId of
        None \<Rightarrow> (pg, [])
      | Some db \<Rightarrow>
          if db = 0 then (pg, [])
          else
            (let pg1 = pg\<lparr>analyzing := True, page_error := None\<rparr>
             in case runBackground srv ''explorer'' of
                  Inl e \<Rightarrow>
                    (pg1\<lparr>page_error := Some (message_or e ''Analysis failed''), analyzing := False\<rparr>,
                     [RunExplorerBackground db None])
                | Inr jobId \<Rightarrow>
                    (case runAnalysis_from srv jobId 0 of
                       (Some e, tr) \<Rightarrow>
                         (pg1\<lparr>page_error := Some (message_or e ''Analysis failed''), analyzing := False\<rparr>,
                          RunExplorerBackground db (Some jobId) # tr)
                     | (None, tr) \<Rightarrow>
                         (let (pg2, tr') = fetchData getDatabase pg1
                          in (pg2\<lparr>analyzing := False\<rparr>,
                              RunExplorerBackground db (Some jobId) # tr @ tr')))))"

section \<open>The hook \<open>useJobPolling\<close> and the activity page\<close>

record polling =
  job :: "Job option"
  polling_loading :: bool
  polling_error :: "string option"
  interval :: bool
  mounted :: bool

text \<open>
  \<open>interval\<close> says whether the timer that repeats \<open>fetchJob\<close> is set;
  \<open>stopPolling\<close> clears it. An optional callback is either not supplied (\<open>None\<close>) or
  a function of the caller's, which on a given argument returns (\<open>None\<close>) or throws.
  The calls made are logged in order.
\<close>

datatype callback = OnComplete Job | OnError string

record polling_options =
  onComplete :: "(Job \<Rightarrow> thrown option) option"
  onError :: "(string \<Rightarrow> thrown option) option"

definition stopPolling :: "polling \<Rightarrow> polling" where
  "stopPolling h = h\<lparr>interval := False\<rparr>"

text \<open>
  The catch block of \<open>fetchJob\<close>, entered with the hook mounted: it stores the message,
  calls \<open>onError\<close> and stops the timer. It is outside the try block, so an
  \<open>onError\<close> that throws here leaves \<open>fetchJob\<close> with that exception, the timer
  still set.
\<close>

definition fetchJob_catch ::
  "polling_options \<Rightarrow> thrown \<Rightarrow> polling \<Rightarrow> polling \<times> callback list \<times> thrown option" where
  "fetchJob_catch opts err h =
     (let errorMsg = message_or err ''Failed to fetch job status'';
          h1 = h\<lparr>polling_error := Some errorMsg\<rparr>
      in case onError opts of
           None \<Rightarrow> (stopPolling h1, [], None)
         | Some f \<Rightarrow>
             (case f errorMsg of
                None \<Rightarrow> (stopPolling h1, [OnError errorMsg], None)
              | Some e \<Rightarrow> (h1, [OnError errorMsg], Some e)))"

text \<open>
  One run of \<open>fetchJob\<close>. \<open>response\<close> is the answer to the request and
  \<open>mounted_after\<close> the value of the mounted flag once the answer has arrived (the
  flag is cleared by the hook's cleanup, not by \<open>fetchJob\<close>). The callbacks are called
  inside the try block, so an exception of theirs is caught like one of the request. The
  result is the new state, the calls made, and the exception \<open>fetchJob\<close> ends with, if
  any.
\<close>

definition fetchJob ::
  "polling_options \<Rightarrow> string option \<Rightarrow> thrown + Job \<Rightarrow> bool \<Rightarrow> polling \<Rightarrow>
     polling \<times> callback list \<times> thrown option" where
  "fetchJob opts jobId response mounted_after h =
     (if jobId = None \<or> jobId = Some [] \<or> \<not> mounted h then (h, [], None)
      else if \<not> mounted_after then (h, [], None)
      else
        (case response of
           Inr jobData \<Rightarrow>
             (let h1 = h\<lparr>job := Some jobData, polling_error := None\<rparr>
              in if status jobData = Completed \<or> status jobData = Failed \<or> status jobData = Cancelled
                 then
                   (let h2 = stopPolling h1
                    in if status jobData = Completed then
                         (case onComplete opts of
                            None \<Rightarrow> (h2, [], None)
                          | Some f \<Rightarrow>
                              (case f jobData of
                                 None \<Rightarrow> (h2, [OnComplete jobData], None)
                               | Some e \<Rightarrow>
                                   (let (h3, calls, r) = fetchJob_catch opts e h2
                                    in (h3, OnComplete jobData # calls, r))))
                       else if status jobData = Failed then
                         (case onError opts of
                            None \<Rightarrow> (h2, [], None)
                          | Some f \<Rightarrow>
                              (case f (or_else (error jobData) ''Job failed'') of
                                 None \<Rightarrow> (h2, [OnError (or_else (error jobData) ''Job failed'')], None)
                               | Some e \<Rightarrow>
                                   (let (h3, calls, r) = fetchJob_catch opts e h2
                                    in (h3, OnError (or_else (error jobData) ''Job failed'') # calls, r))))
                       else (h2, [], None))
                 else (h1, [], None))
         | Inl err \<Rightarrow> fetchJob_catch opts err h))"

definition isRunning :: "polling \<Rightarrow> bool" where
  "isRunning h = (case job h of None \<Rightarrow> False | Some j \<Rightarrow> status j = Running \<or> status j = Pending)"

definition isComplete :: "polling \<Rightarrow> bool" where
  "isComplete h = (case job h of None \<Rightarrow> False | Some j \<Rightarrow> status j = Completed)"

definition isFailed :: "polling \<Rightarrow> bool" where
  "isFailed h = (case job h of None \<Rightarrow> False | Some j \<Rightarrow> status j = Failed)"

text \<open>The activity page's list of running jobs.\<close>

definition runningJobs :: "Job list \<Rightarrow> Job list" where
  "runningJobs jobs = filter (\<lambda>j. status j = Running \<or> status j = Pending) jobs"

section \<open>The hook \<open>useApi\<close> and its cache\<close>

record 'a entry =
  data :: 'a
  timestamp :: int

type_synonym 'a cache = "string \<Rightarrow> 'a entry option"

definition DEFAULT_CACHE_TTL :: int where
  "DEFAULT_CACHE_TTL = 30000"

record 'a api_options =
  immediate :: bool
  onSuccess :: "('a \<Rightarrow> thrown option) option"
  onApiError :: "(string \<Rightarrow> thrown option) option"
  cacheKey :: "string option"
  cacheTTL :: "int option"

record 'a api_state =
  st_data :: "'a option"
  st_loading :: bool
  st_error :: "string option"

datatype 'a api_event = ApiCall | OnSuccess 'a | OnApiError string

datatype 'a outcome = Returned "'a option" | Threw thrown

definition ttl_of :: "'a api_options \<Rightarrow> int" where
  "ttl_of opts = (case cacheTTL opts of None \<Rightarrow> DEFAULT_CACHE_TTL | Some t \<Rightarrow> t)"

text \<open>A cache key is used only when it is truthy: given and not the empty string.\<close>

definition key_of :: "string option \<Rightarrow> string option" where
  "key_of k = (case k of None \<Rightarrow> None | Some s \<Rightarrow> if s = [] then None else Some s)"

text \<open>
  The catch block of \<open>execute\<close>, entered with the component mounted: it stores the
  message, calls \<open>onError\<close> and throws the exception on; an \<open>onError\<close> that throws
  replaces it by its own.
\<close>

definition execute_catch ::
  "'a api_options \<Rightarrow> thrown \<Rightarrow> 'a api_state \<Rightarrow> 'a outcome \<times> 'a api_state \<times> 'a api_event list" where
  "execute_catch opts err st =
     (let errorMessage = message_or err ''An error occurred'';
          st' = st\<lparr>st_loading := False, st_error := Some errorMessage\<rparr>
      in case onApiError opts of
           None \<Rightarrow> (Threw err, st', [])
         | Some f \<Rightarrow>
             (case f errorMessage of
                None \<Rightarrow> (Threw err, st', [OnApiError errorMessage])
              | Some e \<Rightarrow> (Threw e, st', [OnApiError errorMessage])))"

text \<open>
  One run of \<open>execute\<close>. \<open>now\<close> is the clock when the cache is looked up,
  \<open>apiCall\<close> the outcome of the underlying call, \<open>mounted_after\<close> the mounted flag
  when the call has finished, and \<open>now'\<close> the clock at that time. The result is what
  \<open>execute\<close> returns (\<open>Returned None\<close> is \<open>undefined\<close>) or throws, with the new
  cache, the new state and the calls made. \<open>onSuccess\<close> is called inside the try block,
  after the cache has been written, so an exception of its own is caught like one of the call.
\<close>

definition execute ::
  "'a api_options \<Rightarrow> int \<Rightarrow> thrown + 'a \<Rightarrow> bool \<Rightarrow> int \<Rightarrow> 'a cache \<Rightarrow> 'a api_state \<Rightarrow>
     'a outcome \<times> 'a cache \<times> 'a api_state \<times> 'a api_event list" where
  "execute opts now apiCall mounted_after now' cache st =
     (case (case key_of (cacheKey opts) of
              None \<Rightarrow> None
            | Some k \<Rightarrow>
                (case cache k of
                   None \<Rightarrow> None
                 | Some cached \<Rightarrow> if now - timestamp cached < ttl_of opts then Some cached else None)) of
        Some cached \<Rightarrow>
          (Returned (Some (data cached)), cache,
           \<lparr>st_data = Some (data cached), st_loading = False, st_error = None\<rparr>, [])
      | None \<Rightarrow>
          (let st1 = st\<lparr>st_loading := True, st_error := None\<rparr>
           in case apiCall of
                Inr d \<Rightarrow>
                  if \<not> mounted_after then (Returned None, cache, st1, [ApiCall])
                  else
                    (let cache' = (case key_of (cacheKey opts) of
                                     None \<Rightarrow> cache
                                   | Some k \<Rightarrow> cache(k \<mapsto> \<lparr>data = d, timestamp = now'\<rparr>));
                         st2 = \<lparr>st_data = Some d, st_loading = False, st_error = None\<rparr>
                     in case onSuccess opts of
                          None \<Rightarrow> (Returned (Some d), cache', st2, [ApiCall])
                        | Some f \<Rightarrow>
                            (case f d of
                               None \<Rightarrow> (Returned (Some d), cache', st2, [ApiCall, OnSuccess d])
                             | Some e \<Rightarrow>
                                 (let (r, st3, calls) = execute_catch opts e st2
                                  in (r, cache', st3, ApiCall # OnSuccess d # calls))))
              | Inl err \<Rightarrow>
                  if \<not> mounted_after then (Returned None, cache, st1, [ApiCall])
                  else
                    (let (r, st2, calls) = execute_catch opts err st1
                     in (r, cache, st2, ApiCall # calls))))"

definition clearApiCache :: "string option \<Rightarrow> 'a cache \<Rightarrow> 'a cache" where
  "clearApiCache key cache =
     (case key_of key of
        Some k \<Rightarrow> cache(k := None)
      | None \<Rightarrow> Map.empty)"

section \<open>Properties of runs\<close>

text \<open>A status in which the client keeps polling.\<close>

definition waiting :: "job_status \<Rightarrow> bool" where
  "waiting s = (s = Pending \<or> s = Running)"

fun is_poll :: "event \<Rightarrow> bool" where
  "is_poll (GetJob j s) = True"
| "is_poll e = False"

text \<open>The agent a start request is for; the pipeline request counts as \<open>all\<close>.\<close>

fun started_agent :: "event \<Rightarrow> string option" where
  "started_agent (RunExplorerBackground db r) = Some ''explorer''"
| "started_agent (RunObserverBackground db r) = Some ''observer''"
| "started_agent (RunArchitectBackground db r) = Some ''architect''"
| "started_agent (RunGardenerBackground db r) = Some ''gardener''"
| "started_agent (RunPartitionerBackground db r) = Some ''partitioner''"
| "started_agent (RunAllAgentsBackground db r) = Some ''all''"
| "started_agent e = None"

text \<open>The job a start request returned.\<close>

fun started_job :: "event \<Rightarrow> string option" where
  "started_job (RunExplorerBackground db r) = r"
| "started_job (RunObserverBackground db r) = r"
| "started_job (RunArchitectBackground db r) = r"
| "started_job (RunGardenerBackground db r) = r"
| "started_job (RunPartitionerBackground db r) = r"
| "started_job (RunAllAgentsBackground db r) = r"
| "started_job e = None"

fun starts :: "event list \<Rightarrow> string list" where
  "starts [] = []"
| "starts (e # tr) = (case started_agent e of None \<Rightarrow> starts tr | Some a \<Rightarrow> a # starts tr)"

text \<open>
  \<open>sequential opn tr\<close>: with \<open>opn\<close> the agent that is marked running and not yet
  settled, the run \<open>tr\<close> marks an agent running only when no agent is open, sends a start
  request only for the open agent, and closes an agent by marking it \<open>success\<close> or
  \<open>error\<close>.
\<close>

fun sequential :: "string option \<Rightarrow> event list \<Rightarrow> bool" where
  "sequential opn [] = True"
| "sequential opn (UpdateAgentStatus a st r # tr) =
     (if st = St_running then opn = None \<and> sequential (Some a) tr
      else if st = St_success \<or> st = St_error then sequential (if opn = Some a then None else opn) tr
      else sequential opn tr)"
| "sequential opn (e # tr) =
     (case started_agent e of
        None \<Rightarrow> sequential opn tr
      | Some a \<Rightarrow> opn = Some a \<and> sequential opn tr)"

text \<open>
  \<open>after_terminal prev tr\<close>: \<open>prev\<close> says whether the job of the agent started last
  has been seen in a terminal status (\<open>None\<close> before the first start request). The run
  \<open>tr\<close> sends a start request only when no agent was started before or the job of the
  previous one has been seen in a terminal status.
\<close>

fun after_terminal :: "bool option \<Rightarrow> event list \<Rightarrow> bool" where
  "after_terminal prev [] = True"
| "after_terminal prev (GetJob j s # tr) =
     after_terminal (if (case s of None \<Rightarrow> False | Some st \<Rightarrow> terminal st) then Some True else prev) tr"
| "after_terminal prev (e # tr) =
     (case started_agent e of
        None \<Rightarrow> after_terminal prev tr
      | Some a \<Rightarrow> prev \<noteq> Some False \<and> after_terminal (Some False) tr)"

text \<open>
  \<open>one_in_flight cur tr\<close>: with \<open>cur\<close> the job that was started and has not been seen
  in a terminal status, the run \<open>tr\<close> sends a start request only when no job is in flight.
\<close>

fun one_in_flight :: "string option \<Rightarrow> event list \<Rightarrow> bool" where
  "one_in_flight cur [] = True"
| "one_in_flight cur (GetJob j s # tr) =
     one_in_flight (if cur = Some j \<and> (case s of None \<Rightarrow> False | Some st \<Rightarrow> terminal st)
                    then None else cur) tr"
| "one_in_flight cur (e # tr) =
     (case started_agent e of
        None \<Rightarrow> one_in_flight cur tr
      | Some a \<Rightarrow> cur = None \<and> one_in_flight (started_job e) tr)"

text \<open>
  \<open>one_awaited w tr\<close>: \<open>w\<close> is the job the client is waiting for together with the
  number of polls of it made so far, all of which saw it pending or running. The run
  \<open>tr\<close> polls only the awaited job, at most \<open>maxAttempts\<close> times, and sends a start
  request only when the wait is over: no job is awaited (the last poll saw a terminal status
  or threw, or the last start request failed) or \<open>maxAttempts\<close> polls have been made.
\<close>

fun one_awaited :: "(string \<times> nat) option \<Rightarrow> event list \<Rightarrow> bool" where
  "one_awaited w [] = True"
| "one_awaited w (GetJob j s # tr) =
     (case w of
        None \<Rightarrow> False
      | Some (j', n) \<Rightarrow>
          j' = j \<and> n < maxAttempts \<and>
          one_awaited (case s of
                         None \<Rightarrow> None
                       | Some st \<Rightarrow> if terminal st then None else Some (j, Suc n)) tr)"
| "one_awaited w (e # tr) =
     (case started_agent e of
        None \<Rightarrow> one_awaited w tr
      | Some a \<Rightarrow>
          (case w of None \<Rightarrow> True | Some (j', n) \<Rightarrow> n = maxAttempts) \<and>
          one_awaited (case started_job e of None \<Rightarrow> None | Some j \<Rightarrow> Some (j, 0)) tr)"

text \<open>
  What an agent's own job comes to, whatever the other agents do: the start request and,
  if it returned a job, the wait for that job.
\<close>

definition own_outcome :: "server \<Rightarrow> int \<Rightarrow> string \<Rightarrow> thrown + string" where
  "own_outcome srv databaseId agentId =
     (case fst (startAgentJob srv databaseId agentId) of
        Inl e \<Rightarrow> Inl e
      | Inr jobId \<Rightarrow> fst (pollJobStatus srv jobId agentId))"

text \<open>The status the panel shows for an outcome.\<close>

definition settled :: "thrown + string \<Rightarrow> AgentStatus" where
  "settled r =
     (case r of
        Inr s \<Rightarrow> \<lparr>state = St_success, result = Some s\<rparr>
      | Inl e \<Rightarrow> \<lparr>state = St_error, result = Some (message_or e ''Failed'')\<rparr>)"

text \<open>
  \<open>paced tr\<close>: the wait \<open>tr\<close> is a row of polls with exactly one sleep of 1000 ms
  between a poll and the next.
\<close>

fun paced :: "event list \<Rightarrow> bool" where
  "paced [] = True"
| "paced [GetJob j s] = True"
| "paced (GetJob j s # Delay d # tr) = (d = 1000 \<and> paced tr)"
| "paced tr = False"

text \<open>The wait for a job is over: no job is awaited, or every allowed poll has been made.\<close>

definition wait_over :: "(string \<times> nat) option \<Rightarrow> bool" where
  "wait_over w = (case w of None \<Rightarrow> True | Some (j, n) \<Rightarrow> n = maxAttempts)"

section \<open>Example inputs\<close>

definition a_job :: "job_status \<Rightarrow> string option \<Rightarrow> Job" where
  "a_job s e =
     \<lparr>job_id = ''job'', database_id = 7, agent = ''explorer'', status = s, progress = 0,
      current_step = None, total_steps = 1, started_at = None, completed_at = None,
      error = e, result_json = None, created_at = ''2025-01-01T00:00:00''\<rparr>"

text \<open>A completed explorer job with a report.\<close>

definition explorer_report :: Job where
  "explorer_report = (a_job Completed None)
     \<lparr>result_json := Some ((\<lambda>k. None)(''anomalies_count'' \<mapsto> JNum 12, ''tables'' \<mapsto> JNum 40))\<rparr>"

text \<open>A server on which every job stays running.\<close>

definition srv_stuck :: server where
  "srv_stuck = \<lparr>runBackground = (\<lambda>a. Inr (''job-'' @ a)),
                getJob = (\<lambda>j n. Inr (a_job Running None))\<rparr>"

text \<open>A server on which the explorer's job has been cancelled and every other job completes.\<close>

definition srv_cancelled :: server where
  "srv_cancelled = \<lparr>runBackground = (\<lambda>a. Inr (''job-'' @ a)),
       getJob = (\<lambda>j n. Inr (a_job (if j = ''job-explorer'' then Cancelled else Completed)
                                  (if j = ''job-explorer'' then Some ''Cancelled by user'' else None)))\<rparr>"

text \<open>A server on which the first poll of the explorer's job cannot be answered.\<close>

definition srv_unreachable :: server where
  "srv_unreachable = \<lparr>runBackground = (\<lambda>a. Inr (''job-'' @ a)),
       getJob = (\<lambda>j n. if j = ''job-explorer'' then Inl (Error ''HTTP 502'')
                        else Inr (a_job Completed None))\<rparr>"

text \<open>
  A server on which the architect's job fails and every other job completes, the explorer's
  with a report.
\<close>

definition srv_architect_fails :: server where
  "srv_architect_fails = \<lparr>runBackground = (\<lambda>a. Inr (''job-'' @ a)),
       getJob = (\<lambda>j n. if j = ''job-architect'' then Inr (a_job Failed (Some ''LLM timeout''))
                        else if j = ''job-explorer'' then Inr explorer_report
                        else Inr (a_job Completed None))\<rparr>"

definition panel0 :: panel where
  "panel0 = \<lparr>agentStatus = Map.empty, runningAll = False, currentStep = - 1,
              shouldStop = False, currentJobId = None\<rparr>"

text \<open>A server on which the explorer's job has failed with an empty error text.\<close>

definition srv_failed_empty :: server where
  "srv_failed_empty = \<lparr>runBackground = (\<lambda>a. Inr (''job-'' @ a)),
       getJob = (\<lambda>j n. Inr (a_job Failed (Some [])))\<rparr>"

text \<open>A server on which the explorer's job has failed and its error text reads like the marker.\<close>

definition srv_failed_marker :: server where
  "srv_failed_marker = \<lparr>runBackground = (\<lambda>a. Inr (''job-'' @ a)),
       getJob = (\<lambda>j n. Inr (a_job Failed (Some ''Job cancelled'')))\<rparr>"

text \<open>A server on which a job is seen running twice and then failed.\<close>

definition srv_late_failure :: server where
  "srv_late_failure = \<lparr>runBackground = (\<lambda>a. Inr (''job-'' @ a)),
       getJob = (\<lambda>j n. if n < 2 then Inr (a_job Running None)
                        else Inr (a_job Failed (Some ''LLM timeout'')))\<rparr>"

text \<open>A server on which a job is seen pending once and then cancelled.\<close>

definition srv_late_cancel :: server where
  "srv_late_cancel = \<lparr>runBackground = (\<lambda>a. Inr (''job-'' @ a)),
       getJob = (\<lambda>j n. if n < 1 then Inr (a_job Pending None)
                        else Inr (a_job Cancelled (Some ''connection lost'')))\<rparr>"

text \<open>
  A server on which the architect's job fails, the gardener's job stays running and every
  other job completes.
\<close>

definition srv_gardener_stuck :: server where
  "srv_gardener_stuck = \<lparr>runBackground = (\<lambda>a. Inr (''job-'' @ a)),
       getJob = (\<lambda>j n. if j = ''job-architect'' then Inr (a_job Failed (Some ''LLM timeout''))
                        else if j = ''job-gardener'' then Inr (a_job Running None)
                        else Inr (a_job Completed None))\<rparr>"

text \<open>A server that refuses to start the explorer and completes every other job.\<close>

definition srv_no_explorer :: server where
  "srv_no_explorer = \<lparr>runBackground = (\<lambda>a. if a = ''explorer'' then Inl (Error ''HTTP 500'')
                                             else Inr (''job-'' @ a)),
       getJob = (\<lambda>j n. Inr (a_job Completed None))\<rparr>"

text \<open>
  A server on which the explorer's job has failed and its error text reads like the marker of
  the database page.
\<close>

definition srv_failed_page_marker :: server where
  "srv_failed_page_marker = \<lparr>runBackground = (\<lambda>a. Inr (''job-'' @ a)),
       getJob = (\<lambda>j n. Inr (a_job Failed (Some ''Analysis cancelled'')))\<rparr>"

definition page0 :: detail_page where
  "page0 = \<lparr>analyzing = False, loading = False, page_error = None\<rparr>"

definition hook0 :: polling where
  "hook0 = \<lparr>job = None, polling_loading = True, polling_error = None, interval = True,
             mounted = True\<rparr>"

text \<open>Both callbacks supplied, and both return.\<close>

definition both_callbacks :: polling_options where
  "both_callbacks = \<lparr>onComplete = Some (\<lambda>j. None), onError = Some (\<lambda>m. None)\<rparr>"

text \<open>Both callbacks supplied; \<open>onComplete\<close> throws.\<close>

definition failing_onComplete :: polling_options where
  "failing_onComplete =
     \<lparr>onComplete = Some (\<lambda>j. Some (Error ''Cannot read properties of undefined'')),
      onError = Some (\<lambda>m. None)\<rparr>"

definition keyed :: "nat api_options" where
  "keyed = \<lparr>immediate = False, onSuccess = None, onApiError = None,
            cacheKey = Some ''databases'', cacheTTL = None\<rparr>"

definition idle :: "nat api_state" where
  "idle = \<lparr>st_data = None, st_loading = False, st_error = None\<rparr>"

section \<open>The wait for one job\<close>

lemma waiting_not_terminal: "waiting s = (\<not> terminal s)"
  by (cases s) (simp_all add: waiting_def terminal_def)

lemma poll_exhausted:
  "\<not> attempt < maxAttempts \<Longrightarrow> pollJobStatus_from srv j a attempt = (Inl (Error ''Job timed out''), [])"
  by (simp add: pollJobStatus_from.simps)

lemma poll_throws:
  "attempt < maxAttempts \<Longrightarrow> getJob srv j attempt = Inl e \<Longrightarrow>
   pollJobStatus_from srv j a attempt = (Inl e, [GetJob j None])"
  by (simp add: pollJobStatus_from.simps)

lemma poll_completed:
  "attempt < maxAttempts \<Longrightarrow> getJob srv j attempt = Inr jb \<Longrightarrow> status jb = Completed \<Longrightarrow>
   pollJobStatus_from srv j a attempt = (Inr (summary a jb), [GetJob j (Some Completed)])"
  by (simp add: pollJobStatus_from.simps)

lemma poll_failed:
  "attempt < maxAttempts \<Longrightarrow> getJob srv j attempt = Inr jb \<Longrightarrow> status jb = Failed \<Longrightarrow>
   pollJobStatus_from srv j a attempt =
     (Inl (Error (or_else (error jb) ''Job failed'')), [GetJob j (Some Failed)])"
  by (simp add: pollJobStatus_from.simps)

lemma poll_cancelled:
  "attempt < maxAttempts \<Longrightarrow> getJob srv j attempt = Inr jb \<Longrightarrow> status jb = Cancelled \<Longrightarrow>
   pollJobStatus_from srv j a attempt = (Inl (Error ''Job cancelled''), [GetJob j (Some Cancelled)])"
  by (simp add: pollJobStatus_from.simps)

lemma poll_waits:
  "attempt < maxAttempts \<Longrightarrow> getJob srv j attempt = Inr jb \<Longrightarrow> waiting (status jb) \<Longrightarrow>
   pollJobStatus_from srv j a attempt =
     (fst (pollJobStatus_from srv j a (Suc attempt)),
      GetJob j (Some (status jb)) # Delay pollInterval # snd (pollJobStatus_from srv j a (Suc attempt)))"
  by (subst pollJobStatus_from.simps) (auto simp: waiting_def split: prod.splits)

text \<open>The five ways a pass of the loop can go.\<close>

lemma poll_cases:
  obtains (exhausted) "\<not> attempt < maxAttempts"
  | (throws) e where "attempt < maxAttempts" "getJob srv j attempt = Inl e"
  | (completed) jb where "attempt < maxAttempts" "getJob srv j attempt = Inr jb" "status jb = Completed"
  | (failed) jb where "attempt < maxAttempts" "getJob srv j attempt = Inr jb" "status jb = Failed"
  | (cancelled) jb where "attempt < maxAttempts" "getJob srv j attempt = Inr jb" "status jb = Cancelled"
  | (waits) jb where "attempt < maxAttempts" "getJob srv j attempt = Inr jb" "waiting (status jb)"
proof (cases "attempt < maxAttempts")
  case False
  then show ?thesis by (rule exhausted)
next
  case lt: True
  show ?thesis
  proof (cases "getJob srv j attempt")
    case (Inl e)
    with lt show ?thesis by (rule throws)
  next
    case (Inr jb)
    show ?thesis
    proof (cases "status jb")
      case Pending
      then have "waiting (status jb)" by (simp add: waiting_def)
      with lt Inr show ?thesis by (rule waits)
    next
      case Running
      then have "waiting (status jb)" by (simp add: waiting_def)
      with lt Inr show ?thesis by (rule waits)
    next
      case Completed
      with lt Inr show ?thesis by (rule completed)
    next
      case Failed
      with lt Inr show ?thesis by (rule failed)
    next
      case Cancelled
      with lt Inr show ?thesis by (rule cancelled)
    qed
  qed
qed

lemma poll_count:
  "length (filter is_poll (snd (pollJobStatus_from srv j a attempt))) \<le> maxAttempts - attempt"
proof (induction "maxAttempts - attempt" arbitrary: attempt)
  case 0
  then show ?case by (simp add: poll_exhausted)
next
  case (Suc d)
  show ?case
  proof (cases rule: poll_cases [where attempt = attempt and srv = srv and j = j])
    case exhausted
    then show ?thesis by (simp add: poll_exhausted)
  next
    case (throws e)
    then show ?thesis by (simp add: poll_throws)
  next
    case (completed jb)
    then show ?thesis by (simp add: poll_completed)
  next
    case (failed jb)
    then show ?thesis by (simp add: poll_failed)
  next
    case (cancelled jb)
    then show ?thesis by (simp add: poll_cancelled)
  next
    case (waits jb)
    from Suc.hyps(2) have "d = maxAttempts - Suc attempt" by simp
    from Suc.hyps(1) [OF this] waits show ?thesis by (simp add: poll_waits)
  qed
qed

lemma poll_paced: "paced (snd (pollJobStatus_from srv j a attempt))"
proof (induction "maxAttempts - attempt" arbitrary: attempt)
  case 0
  then show ?case by (simp add: poll_exhausted)
next
  case (Suc d)
  show ?case
  proof (cases rule: poll_cases [where attempt = attempt and srv = srv and j = j])
    case exhausted
    then show ?thesis by (simp add: poll_exhausted)
  next
    case (throws e)
    then show ?thesis by (simp add: poll_throws)
  next
    case (completed jb)
    then show ?thesis by (simp add: poll_completed)
  next
    case (failed jb)
    then show ?thesis by (simp add: poll_failed)
  next
    case (cancelled jb)
    then show ?thesis by (simp add: poll_cancelled)
  next
    case (waits jb)
    from Suc.hyps(2) have "d = maxAttempts - Suc attempt" by simp
    from Suc.hyps(1) [OF this] waits show ?thesis by (simp add: poll_waits pollInterval_def)
  qed
qed

lemma summary_example: "summary ''explorer'' explorer_report = ''12 anomalies found''"
  by code_simp

text \<open>Polls that see the job pending or running are passed over.\<close>

lemma poll_skip:
  assumes "n \<le> maxAttempts"
    and "\<forall>k<n. \<exists>jb. getJob srv j k = Inr jb \<and> waiting (status jb)"
  shows "fst (pollJobStatus srv j a) = fst (pollJobStatus_from srv j a n)"
  using assms
proof (induction n)
  case 0
  then show ?case by (simp add: pollJobStatus_def)
next
  case (Suc n)
  then obtain jb where jb: "getJob srv j n = Inr jb" "waiting (status jb)" by blast
  from Suc have "fst (pollJobStatus srv j a) = fst (pollJobStatus_from srv j a n)" by simp
  also from Suc.prems jb have "\<dots> = fst (pollJobStatus_from srv j a (Suc n))"
    by (simp add: poll_waits)
  finally show ?case .
qed


lemma starts_append: "starts (xs @ ys) = starts xs @ starts ys"
  by (induction xs) (simp_all split: option.splits)

lemma poll_starts: "starts (snd (pollJobStatus_from srv j a attempt)) = []"
proof (induction "maxAttempts - attempt" arbitrary: attempt)
  case 0
  then show ?case by (simp add: poll_exhausted)
next
  case (Suc d)
  show ?case
  proof (cases rule: poll_cases [where attempt = attempt and srv = srv and j = j])
    case exhausted
    then show ?thesis by (simp add: poll_exhausted)
  next
    case (throws e)
    then show ?thesis by (simp add: poll_throws)
  next
    case (completed jb)
    then show ?thesis by (simp add: poll_completed)
  next
    case (failed jb)
    then show ?thesis by (simp add: poll_failed)
  next
    case (cancelled jb)
    then show ?thesis by (simp add: poll_cancelled)
  next
    case (waits jb)
    from Suc.hyps(2) have "d = maxAttempts - Suc attempt" by simp
    from Suc.hyps(1) [OF this] waits show ?thesis by (simp add: poll_waits)
  qed
qed

lemma poll_sequential:
  "sequential opn (snd (pollJobStatus_from srv j a attempt) @ rest) = sequential opn rest"
proof (induction "maxAttempts - attempt" arbitrary: attempt)
  case 0
  then show ?case by (simp add: poll_exhausted)
next
  case (Suc d)
  show ?case
  proof (cases rule: poll_cases [where attempt = attempt and srv = srv and j = j])
    case exhausted
    then show ?thesis by (simp add: poll_exhausted)
  next
    case (throws e)
    then show ?thesis by (simp add: poll_throws)
  next
    case (completed jb)
    then show ?thesis by (simp add: poll_completed)
  next
    case (failed jb)
    then show ?thesis by (simp add: poll_failed)
  next
    case (cancelled jb)
    then show ?thesis by (simp add: poll_cancelled)
  next
    case (waits jb)
    from Suc.hyps(2) have "d = maxAttempts - Suc attempt" by simp
    from Suc.hyps(1) [OF this] waits show ?thesis by (simp add: poll_waits)
  qed
qed

lemma poll_awaited:
  "attempt \<le> maxAttempts \<Longrightarrow>
   \<exists>w. wait_over w \<and>
       (\<forall>rest. one_awaited (Some (j, attempt)) (snd (pollJobStatus_from srv j a attempt) @ rest)
               = one_awaited w rest)"
proof (induction "maxAttempts - attempt" arbitrary: attempt)
  case 0
  then have "attempt = maxAttempts" by simp
  then have "wait_over (Some (j, attempt))"
    and "snd (pollJobStatus_from srv j a attempt) = []"
    by (simp_all add: wait_over_def poll_exhausted)
  then show ?case by (metis append_Nil)
next
  case (Suc d)
  have none: "wait_over None" by (simp add: wait_over_def)
  show ?case
  proof (cases rule: poll_cases [where attempt = attempt and srv = srv and j = j])
    case exhausted
    with Suc.hyps(2) show ?thesis by simp
  next
    case (throws e)
    then have "\<forall>rest. one_awaited (Some (j, attempt)) (snd (pollJobStatus_from srv j a attempt) @ rest)
               = one_awaited None rest" by (simp add: poll_throws)
    with none show ?thesis by blast
  next
    case (completed jb)
    then have "\<forall>rest. one_awaited (Some (j, attempt)) (snd (pollJobStatus_from srv j a attempt) @ rest)
               = one_awaited None rest" by (simp add: poll_completed terminal_def)
    with none show ?thesis by blast
  next
    case (failed jb)
    then have "\<forall>rest. one_awaited (Some (j, attempt)) (snd (pollJobStatus_from srv j a attempt) @ rest)
               = one_awaited None rest" by (simp add: poll_failed terminal_def)
    with none show ?thesis by blast
  next
    case (cancelled jb)
    then have "\<forall>rest. one_awaited (Some (j, attempt)) (snd (pollJobStatus_from srv j a attempt) @ rest)
               = one_awaited None rest" by (simp add: poll_cancelled terminal_def)
    with none show ?thesis by blast
  next
    case (waits jb)
    from Suc.hyps(2) have d: "d = maxAttempts - Suc attempt" by simp
    from waits have "Suc attempt \<le> maxAttempts" by simp
    from Suc.hyps(1) [OF d this] obtain w where w: "wait_over w"
      "\<forall>rest. one_awaited (Some (j, Suc attempt)) (snd (pollJobStatus_from srv j a (Suc attempt)) @ rest)
               = one_awaited w rest" by blast
    from waits have "\<not> terminal (status jb)" by (simp add: waiting_not_terminal)
    with waits w(2) have "\<forall>rest. one_awaited (Some (j, attempt)) (snd (pollJobStatus_from srv j a attempt) @ rest)
               = one_awaited w rest" by (simp add: poll_waits)
    with w(1) show ?thesis by blast
  qed
qed


section \<open>One pass of Run All\<close>

lemma agent_ids: "map agent_id agents = [''explorer'', ''observer'', ''architect'', ''gardener'', ''partitioner'']"
  by (simp add: agents_def)

lemma start_known:
  assumes "a \<in> set (map agent_id agents)"
  shows "\<exists>e. startAgentJob srv db a = (runBackground srv a, [e]) \<and> started_agent e = Some a
             \<and> started_job e = job_of (runBackground srv a)"
proof -
  from assms have "a = ''explorer'' \<or> a = ''observer'' \<or> a = ''architect''
    \<or> a = ''gardener'' \<or> a = ''partitioner''"
    by (simp only: agent_ids list.set insert_iff empty_iff simp_thms)
  then show ?thesis
  proof (elim disjE)
    assume "a = ''explorer''"
    then show ?thesis by (simp add: startAgentJob_def)
  next
    assume "a = ''observer''"
    then show ?thesis by (simp add: startAgentJob_def)
  next
    assume "a = ''architect''"
    then show ?thesis by (simp add: startAgentJob_def)
  next
    assume "a = ''gardener''"
    then show ?thesis by (simp add: startAgentJob_def)
  next
    assume "a = ''partitioner''"
    then show ?thesis by (simp add: startAgentJob_def)
  qed
qed

lemma start_unknown:
  assumes "a \<notin> set (map agent_id agents)"
  shows "startAgentJob srv db a = (Inl (Error (''Unknown agent: '' @ a)), [])"
proof -
  from assms have "a \<noteq> ''explorer''" "a \<noteq> ''observer''" "a \<noteq> ''architect''"
    "a \<noteq> ''gardener''" "a \<noteq> ''partitioner''"
    by (simp_all only: agent_ids list.set insert_iff empty_iff simp_thms de_Morgan_disj)
  then show ?thesis
    by (simp only: startAgentJob_def if_False)
qed

lemma stop_trace:
  "snd (stopAnalysis p) = [] \<or> (\<exists>j. snd (stopAnalysis p) = [CancelJob j])"
  by (simp add: stopAnalysis_def split: option.splits)

lemma stop_status: "agentStatus (fst (stopAnalysis p)) = agentStatus p"
  by (simp add: stopAnalysis_def)

text \<open>The polls of the step of agent \<open>a\<close>.\<close>

lemma own_outcome_known:
  assumes "a \<in> set (map agent_id agents)"
  shows "own_outcome srv db a =
     (case runBackground srv a of Inl e \<Rightarrow> Inl e | Inr j \<Rightarrow> fst (pollJobStatus srv j a))"
proof -
  from start_known [OF assms] obtain e where "startAgentJob srv db a = (runBackground srv a, [e])"
    by blast
  then show ?thesis by (simp add: own_outcome_def)
qed

lemma runStep_shape:
  assumes "a \<in> set (map agent_id agents)"
  shows "\<exists>e c. snd (runStep srv db click i a p) =
            UpdateAgentStatus a St_running None # e # c @
            (case runBackground srv a of Inl x \<Rightarrow> [] | Inr j \<Rightarrow> snd (pollJobStatus srv j a)) @
            [UpdateAgentStatus a (state (settled (own_outcome srv db a)))
                                 (result (settled (own_outcome srv db a)))]
          \<and> started_agent e = Some a \<and> started_job e = job_of (runBackground srv a)
          \<and> (c = [] \<or> (\<exists>j. c = [CancelJob j]))"
proof -
  from start_known [OF assms] obtain e where e: "startAgentJob srv db a = (runBackground srv a, [e])"
    "started_agent e = Some a" "started_job e = job_of (runBackground srv a)"
    by blast
  note oo = own_outcome_known [OF assms, of srv db]
  let ?p1 = "updateAgentStatus (p\<lparr>currentStep := int i\<rparr>) a St_running None"
  let ?s = "if click = DuringStart then snd (stopAnalysis ?p1) else []"
  let ?q = "if click = DuringStart then fst (stopAnalysis ?p1) else ?p1"
  show ?thesis
  proof (cases "runBackground srv a")
    case (Inl x)
    have "snd (runStep srv db click i a p) =
        UpdateAgentStatus a St_running None # e # ?s @ [] @
        [UpdateAgentStatus a St_error (Some (message_or x ''Failed''))]"
      using e(1) Inl by (simp add: runStep_def Let_def split: prod.splits)
    moreover have "?s = [] \<or> (\<exists>j. ?s = [CancelJob j])"
      using stop_trace [of ?p1] by simp
    ultimately show ?thesis
      using e(2,3) Inl by (simp add: oo settled_def)
  next
    case (Inr j)
    let ?p2 = "?q\<lparr>currentJobId := Some j\<rparr>"
    let ?c = "?s @ (if click = DuringWait then snd (stopAnalysis ?p2) else [])"
    have "snd (runStep srv db click i a p) =
        UpdateAgentStatus a St_running None # e # ?c @ snd (pollJobStatus srv j a) @
        [UpdateAgentStatus a (state (settled (fst (pollJobStatus srv j a))))
                             (result (settled (fst (pollJobStatus srv j a))))]"
      using e(1) Inr
      by (cases click) (simp_all add: runStep_def Let_def settled_def split: prod.splits sum.splits)
    moreover have "?c = [] \<or> (\<exists>j. ?c = [CancelJob j])"
      using stop_trace [of ?p1] stop_trace [of ?p2] by (cases click) simp_all
    ultimately show ?thesis
      using e(2,3) Inr by (simp add: oo)
  qed
qed

lemma runStep_status:
  assumes "a \<in> set (map agent_id agents)"
  shows "agentStatus (fst (runStep srv db click i a p)) =
           (agentStatus p)(a \<mapsto> settled (own_outcome srv db a))"
proof -
  from start_known [OF assms] obtain e where e: "startAgentJob srv db a = (runBackground srv a, [e])"
    by blast
  note oo = own_outcome_known [OF assms, of srv db]
  show ?thesis
  proof (cases "runBackground srv a")
    case (Inl x)
    with e show ?thesis
      by (simp add: runStep_def Let_def oo settled_def updateAgentStatus_def stopAnalysis_def
               split: prod.splits)
  next
    case (Inr j)
    with e show ?thesis
      by (cases "fst (pollJobStatus srv j a)"; cases click)
         (auto simp add: runStep_def Let_def oo settled_def updateAgentStatus_def stopAnalysis_def
               split: prod.splits)
  qed
qed

lemma cancel_quiet:
  assumes "c = [] \<or> (\<exists>j. c = [CancelJob j])"
  shows "starts (c @ rest) = starts rest"
    and "sequential opn (c @ rest) = sequential opn rest"
    and "one_awaited w (c @ rest) = one_awaited w rest"
  using assms by auto

lemma runStep_starts:
  assumes "a \<in> set (map agent_id agents)"
  shows "starts (snd (runStep srv db click i a p)) = [a]"
proof -
  from runStep_shape [OF assms, of srv db click i p] obtain e c where
    tr: "snd (runStep srv db click i a p) =
            UpdateAgentStatus a St_running None # e # c @
            (case runBackground srv a of Inl x \<Rightarrow> [] | Inr j \<Rightarrow> snd (pollJobStatus srv j a)) @
            [UpdateAgentStatus a (state (settled (own_outcome srv db a)))
                                 (result (settled (own_outcome srv db a)))]"
    and e: "started_agent e = Some a" and c: "c = [] \<or> (\<exists>j. c = [CancelJob j])"
    by blast
  have "starts (case runBackground srv a of Inl x \<Rightarrow> [] | Inr j \<Rightarrow> snd (pollJobStatus srv j a)) = []"
    by (simp add: pollJobStatus_def poll_starts split: sum.splits)
  moreover have "starts c = []"
    using c by auto
  ultimately show ?thesis
    unfolding tr using e by (simp add: starts_append)
qed

lemma settled_state: "state (settled r) = St_success \<or> state (settled r) = St_error"
  by (simp add: settled_def split: sum.splits)

lemma runStep_sequential:
  assumes "a \<in> set (map agent_id agents)"
  shows "sequential None (snd (runStep srv db click i a p) @ rest) = sequential None rest"
proof -
  from runStep_shape [OF assms, of srv db click i p] obtain e c where
    tr: "snd (runStep srv db click i a p) =
            UpdateAgentStatus a St_running None # e # c @
            (case runBackground srv a of Inl x \<Rightarrow> [] | Inr j \<Rightarrow> snd (pollJobStatus srv j a)) @
            [UpdateAgentStatus a (state (settled (own_outcome srv db a)))
                                 (result (settled (own_outcome srv db a)))]"
    and e: "started_agent e = Some a" and c: "c = [] \<or> (\<exists>j. c = [CancelJob j])"
    by blast
  have e_step: "sequential (Some a) (e # xs) = sequential (Some a) xs" for xs
    using e by (cases e) simp_all
  have polls: "sequential (Some a)
      ((case runBackground srv a of Inl x \<Rightarrow> [] | Inr j \<Rightarrow> snd (pollJobStatus srv j a)) @ xs)
      = sequential (Some a) xs" for xs
    by (simp add: pollJobStatus_def poll_sequential split: sum.splits)
  show ?thesis
    unfolding tr using settled_state [of "own_outcome srv db a"]
    by (auto simp add: e_step cancel_quiet(2) [OF c] polls)
qed

lemma runStep_awaited:
  assumes "a \<in> set (map agent_id agents)" and "wait_over w"
  shows "\<exists>w'. wait_over w' \<and>
     (\<forall>rest. one_awaited w (snd (runStep srv db click i a p) @ rest) = one_awaited w' rest)"
proof -
  from runStep_shape [OF assms(1), of srv db click i p] obtain e c where
    tr: "snd (runStep srv db click i a p) =
            UpdateAgentStatus a St_running None # e # c @
            (case runBackground srv a of Inl x \<Rightarrow> [] | Inr j \<Rightarrow> snd (pollJobStatus srv j a)) @
            [UpdateAgentStatus a (state (settled (own_outcome srv db a)))
                                 (result (settled (own_outcome srv db a)))]"
    and e: "started_agent e = Some a" "started_job e = job_of (runBackground srv a)"
    and c: "c = [] \<or> (\<exists>j. c = [CancelJob j])"
    by blast
  have e_step: "one_awaited w (e # xs) =
      one_awaited (case runBackground srv a of Inl x \<Rightarrow> None | Inr j \<Rightarrow> Some (j, 0)) xs" for xs
    using e assms(2)
    by (cases e) (auto simp add: wait_over_def job_of_def split: option.splits sum.splits)
  show ?thesis
  proof (cases "runBackground srv a")
    case (Inl x)
    have "\<forall>rest. one_awaited w (snd (runStep srv db click i a p) @ rest) = one_awaited None rest"
      unfolding tr by (simp add: e_step Inl cancel_quiet(3) [OF c])
    moreover have "wait_over None" by (simp add: wait_over_def)
    ultimately show ?thesis by blast
  next
    case (Inr j)
    from poll_awaited [of 0 j srv a] obtain w' where w': "wait_over w'"
      "\<forall>rest. one_awaited (Some (j, 0)) (snd (pollJobStatus srv j a) @ rest) = one_awaited w' rest"
      by (auto simp add: pollJobStatus_def)
    have "\<forall>rest. one_awaited w (snd (runStep srv db click i a p) @ rest) = one_awaited w' rest"
      unfolding tr by (simp add: e_step Inr cancel_quiet(3) [OF c] w'(2))
    with w'(1) show ?thesis by blast
  qed
qed


section \<open>The loop of Run All\<close>

lemma agent_in: "i < length agents \<Longrightarrow> agent_id (agents ! i) \<in> set (map agent_id agents)"
  by simp

lemma runLoop_done: "\<not> i < length agents \<Longrightarrow> runLoop srv db click stop i p = (p, [])"
  by (simp add: runLoop.simps)

lemma runLoop_go:
  "i < length agents \<Longrightarrow>
   runLoop srv db click False i p =
     (fst (runLoop srv db click False (Suc i) (fst (runStep srv db (click i) i (agent_id (agents ! i)) p))),
      snd (runStep srv db (click i) i (agent_id (agents ! i)) p) @
      snd (runLoop srv db click False (Suc i) (fst (runStep srv db (click i) i (agent_id (agents ! i)) p))))"
  by (subst runLoop.simps) (simp add: split_beta Let_def)

lemma runLoop_starts:
  "starts (snd (runLoop srv db click False i p)) = map agent_id (drop i agents)"
proof (induction "length agents - i" arbitrary: i p)
  case 0
  then show ?case by (simp add: runLoop_done)
next
  case (Suc d)
  then have lt: "i < length agents" and d: "d = length agents - Suc i" by simp_all
  show ?case
    using Suc.hyps(1) [OF d] lt
    by (simp add: runLoop_go starts_append runStep_starts [OF agent_in [OF lt]]
          Cons_nth_drop_Suc [symmetric])
qed

lemma runLoop_sequential:
  "sequential None (snd (runLoop srv db click False i p))"
proof (induction "length agents - i" arbitrary: i p)
  case 0
  then show ?case by (simp add: runLoop_done)
next
  case (Suc d)
  then have lt: "i < length agents" and d: "d = length agents - Suc i" by simp_all
  show ?case
    using Suc.hyps(1) [OF d] lt
    by (simp add: runLoop_go runStep_sequential [OF agent_in [OF lt]])
qed

lemma runLoop_awaited:
  "wait_over w \<Longrightarrow> one_awaited w (snd (runLoop srv db click False i p))"
proof (induction "length agents - i" arbitrary: i p w)
  case 0
  then show ?case by (simp add: runLoop_done)
next
  case (Suc d)
  then have lt: "i < length agents" and d: "d = length agents - Suc i" by simp_all
  from runStep_awaited [OF agent_in [OF lt] Suc.prems, of srv db "click i" i p]
  obtain w' where w': "wait_over w'"
    "\<forall>rest. one_awaited w (snd (runStep srv db (click i) i (agent_id (agents ! i)) p) @ rest)
       = one_awaited w' rest" by blast
  show ?case
    using Suc.hyps(1) [OF d w'(1)] lt w'(2) by (simp add: runLoop_go)
qed

lemma runLoop_status:
  "agentStatus (fst (runLoop srv db click False i p)) a =
     (if a \<in> set (map agent_id (drop i agents)) then Some (settled (own_outcome srv db a))
      else agentStatus p a)"
proof (induction "length agents - i" arbitrary: i p)
  case 0
  then show ?case by (simp add: runLoop_done)
next
  case (Suc d)
  then have lt: "i < length agents" and d: "d = length agents - Suc i" by simp_all
  have dr: "drop i agents = agents ! i # drop (Suc i) agents"
    using lt by (simp add: Cons_nth_drop_Suc)
  show ?case
    using Suc.hyps(1) [OF d] lt
    by (simp add: runLoop_go runStep_status [OF agent_in [OF lt]] dr)
qed

text \<open>The flags of the panel that the loop leaves alone or clears.\<close>

lemma markStopped_done: "\<not> j < length agents \<Longrightarrow> markStopped j p = (p, [])"
  by (simp add: markStopped.simps)

lemma markStopped_go:
  "j < length agents \<Longrightarrow>
   markStopped j p =
     (fst (markStopped (Suc j) (updateAgentStatus p (agent_id (agents ! j)) St_error (Some ''Stopped by user''))),
      UpdateAgentStatus (agent_id (agents ! j)) St_error (Some ''Stopped by user'') #
      snd (markStopped (Suc j) (updateAgentStatus p (agent_id (agents ! j)) St_error (Some ''Stopped by user''))))"
  by (subst markStopped.simps) (simp add: split_beta Let_def)

lemma markStopped_starts: "starts (snd (markStopped j p)) = []"
proof (induction "length agents - j" arbitrary: j p)
  case 0
  then show ?case by (simp add: markStopped_done)
next
  case (Suc d)
  then have lt: "j < length agents" and d: "d = length agents - Suc j" by simp_all
  show ?case using Suc.hyps(1) [OF d] lt by (simp add: markStopped_go)
qed

lemma markStopped_status:
  "agentStatus (fst (markStopped j p)) a =
     (if a \<in> set (map agent_id (drop j agents))
      then Some \<lparr>state = St_error, result = Some ''Stopped by user''\<rparr>
      else agentStatus p a)"
proof (induction "length agents - j" arbitrary: j p)
  case 0
  then show ?case by (simp add: markStopped_done)
next
  case (Suc d)
  then have lt: "j < length agents" and d: "d = length agents - Suc j" by simp_all
  have dr: "drop j agents = agents ! j # drop (Suc j) agents"
    using lt by (simp add: Cons_nth_drop_Suc)
  show ?case
    using Suc.hyps(1) [OF d] lt
    by (simp add: markStopped_go dr updateAgentStatus_def)
qed

lemma runLoop_stopped: "runLoop srv db click True i p = markStopped i p"
  by (subst runLoop.simps) (simp add: markStopped_done)


section \<open>Run All as a whole\<close>

lemma len_agents: "length agents = 5"
  by (simp add: agents_def)

lemma starts_mem: "e \<in> set tr \<Longrightarrow> started_agent e = Some x \<Longrightarrow> x \<in> set (starts tr)"
  by (induction tr) (auto split: option.splits)

lemma all_not_agent: "''all'' \<notin> set (map agent_id agents)"
  by (simp add: agent_ids)

lemma sequential_snoc: "sequential opn (tr @ [OnAnalysisComplete]) = sequential opn tr"
  by (induction opn tr rule: sequential.induct) (simp_all split: option.splits)

lemma one_awaited_snoc: "one_awaited w (tr @ [OnAnalysisComplete]) = one_awaited w tr"
  by (induction w tr rule: one_awaited.induct) (simp_all split: option.splits prod.splits)

lemma markStopped_awaited: "one_awaited w (snd (markStopped j p))"
proof (induction "length agents - j" arbitrary: j p)
  case 0
  then show ?case by (simp add: markStopped_done)
next
  case (Suc d)
  then have lt: "j < length agents" and d: "d = length agents - Suc j" by simp_all
  show ?case using Suc.hyps(1) [OF d] lt by (simp add: markStopped_go)
qed

text \<open>The parts of the result of Run All.\<close>

lemma runAll_trace:
  "snd (runAllAgentsSequentially srv db cb click p) =
     snd (runLoop srv db click (shouldStop p) 0
            (p\<lparr>runningAll := True, currentStep := 0, shouldStop := False, agentStatus := initialStatus\<rparr>))
     @ (if cb then [OnAnalysisComplete] else [])"
  by (simp add: runAllAgentsSequentially_def split_beta Let_def)

lemma runAll_state:
  "fst (runAllAgentsSequentially srv db cb click p) =
     (fst (runLoop srv db click (shouldStop p) 0
            (p\<lparr>runningAll := True, currentStep := 0, shouldStop := False, agentStatus := initialStatus\<rparr>)))
     \<lparr>currentStep := - 1, runningAll := False, shouldStop := False\<rparr>"
  by (simp add: runAllAgentsSequentially_def split_beta Let_def)

lemma runAll_starts:
  "\<not> shouldStop p \<Longrightarrow> starts (snd (runAllAgentsSequentially srv db cb click p)) = map agent_id agents"
  by (simp add: runAll_trace starts_append runLoop_starts)


section \<open>The wait inside \<open>runAnalysis\<close>\<close>

lemma ra_exhausted:
  "\<not> attempt < maxAttempts \<Longrightarrow> runAnalysis_from srv j attempt = (None, [])"
  by (simp add: runAnalysis_from.simps)

lemma ra_throws:
  "attempt < maxAttempts \<Longrightarrow> getJob srv j attempt = Inl e \<Longrightarrow>
   runAnalysis_from srv j attempt = (Some e, [GetJob j None])"
  by (simp add: runAnalysis_from.simps)

lemma ra_completed:
  "attempt < maxAttempts \<Longrightarrow> getJob srv j attempt = Inr jb \<Longrightarrow> status jb = Completed \<Longrightarrow>
   runAnalysis_from srv j attempt = (None, [GetJob j (Some Completed)])"
  by (simp add: runAnalysis_from.simps)

lemma ra_failed:
  "attempt < maxAttempts \<Longrightarrow> getJob srv j attempt = Inr jb \<Longrightarrow> status jb = Failed \<Longrightarrow>
   runAnalysis_from srv j attempt =
     (Some (Error (or_else (error jb) ''Analysis failed'')), [GetJob j (Some Failed)])"
  by (simp add: runAnalysis_from.simps)

lemma ra_cancelled:
  "attempt < maxAttempts \<Longrightarrow> getJob srv j attempt = Inr jb \<Longrightarrow> status jb = Cancelled \<Longrightarrow>
   runAnalysis_from srv j attempt = (Some (Error ''Analysis cancelled''), [GetJob j (Some Cancelled)])"
  by (simp add: runAnalysis_from.simps)

lemma ra_waits:
  "attempt < maxAttempts \<Longrightarrow> getJob srv j attempt = Inr jb \<Longrightarrow> waiting (status jb) \<Longrightarrow>
   runAnalysis_from srv j attempt =
     (fst (runAnalysis_from srv j (Suc attempt)),
      GetJob j (Some (status jb)) # Delay pollInterval # snd (runAnalysis_from srv j (Suc attempt)))"
  by (subst runAnalysis_from.simps) (auto simp: waiting_def split: prod.splits)

lemma ra_skip:
  assumes "n \<le> maxAttempts"
    and "\<forall>k<n. \<exists>jb. getJob srv j k = Inr jb \<and> waiting (status jb)"
  shows "fst (runAnalysis_from srv j 0) = fst (runAnalysis_from srv j n)"
  using assms
proof (induction n)
  case 0
  then show ?case by simp
next
  case (Suc n)
  then obtain jb where jb: "getJob srv j n = Inr jb" "waiting (status jb)" by blast
  from Suc have "fst (runAnalysis_from srv j 0) = fst (runAnalysis_from srv j n)" by simp
  also from Suc.prems jb have "\<dots> = fst (runAnalysis_from srv j (Suc n))"
    by (simp add: ra_waits)
  finally show ?case .
qed

lemma ra_cases:
  obtains (exhausted) "\<not> attempt < maxAttempts"
  | (decided) r s where "attempt < maxAttempts" "runAnalysis_from srv j attempt = (r, [GetJob j s])"
  | (waits) jb where "attempt < maxAttempts" "getJob srv j attempt = Inr jb" "waiting (status jb)"
proof (cases rule: poll_cases [where attempt = attempt and srv = srv and j = j])
  case exhausted
  then show ?thesis by (rule that(1))
next
  case (throws e)
  then show ?thesis by (intro that(2)) (simp_all add: ra_throws)
next
  case (completed jb)
  then show ?thesis by (intro that(2)) (simp_all add: ra_completed)
next
  case (failed jb)
  then show ?thesis by (intro that(2)) (simp_all add: ra_failed)
next
  case (cancelled jb)
  then show ?thesis by (intro that(2)) (simp_all add: ra_cancelled)
next
  case (waits jb)
  then show ?thesis by (rule that(3))
qed

lemma ra_paced: "paced (snd (runAnalysis_from srv j attempt))"
proof (induction "maxAttempts - attempt" arbitrary: attempt)
  case 0
  then show ?case by (simp add: ra_exhausted)
next
  case (Suc d)
  show ?case
  proof (cases rule: ra_cases [where attempt = attempt and srv = srv and j = j])
    case exhausted
    then show ?thesis by (simp add: ra_exhausted)
  next
    case (decided r s)
    then show ?thesis by simp
  next
    case (waits jb)
    from Suc.hyps(2) have "d = maxAttempts - Suc attempt" by simp
    from Suc.hyps(1) [OF this] waits show ?thesis by (simp add: ra_waits pollInterval_def)
  qed
qed

lemma ra_count:
  "length (filter is_poll (snd (runAnalysis_from srv j attempt))) \<le> maxAttempts - attempt"
proof (induction "maxAttempts - attempt" arbitrary: attempt)
  case 0
  then show ?case by (simp add: ra_exhausted)
next
  case (Suc d)
  show ?case
  proof (cases rule: ra_cases [where attempt = attempt and srv = srv and j = j])
    case exhausted
    then show ?thesis by (simp add: ra_exhausted)
  next
    case (decided r s)
    then show ?thesis by simp
  next
    case (waits jb)
    from Suc.hyps(2) have "d = maxAttempts - Suc attempt" by simp
    from Suc.hyps(1) [OF this] waits show ?thesis by (simp add: ra_waits)
  qed
qed

text \<open>What the page shows when the loop of \<open>runAnalysis\<close> is left by an exception.\<close>

lemma ra_page_error:
  assumes "runBackground srv ''explorer'' = Inr j" and "db \<noteq> 0"
    and "fst (runAnalysis_from srv j 0) = Some e"
  shows "page_error (fst (runAnalysis srv gd (Some db) pg)) = Some (message_or e ''Analysis failed'')"
proof -
  obtain r tr where rt: "runAnalysis_from srv j 0 = (r, tr)"
    by (cases "runAnalysis_from srv j 0")
  with assms(3) have "r = Some e" by simp
  with rt assms(1,2) show ?thesis
    by (simp add: runAnalysis_def)
qed

text \<open>A job that is never seen in a terminal status uses up every poll.\<close>

lemma ra_stuck:
  assumes "\<forall>k<maxAttempts. \<exists>jb. getJob srv j k = Inr jb \<and> waiting (status jb)"
  shows "fst (runAnalysis_from srv j attempt) = None
       \<and> length (filter is_poll (snd (runAnalysis_from srv j attempt))) = maxAttempts - attempt"
proof (induction "maxAttempts - attempt" arbitrary: attempt)
  case 0
  then show ?case by (simp add: ra_exhausted)
next
  case (Suc d)
  then have lt: "attempt < maxAttempts" and d: "d = maxAttempts - Suc attempt" by simp_all
  from assms lt obtain jb where jb: "getJob srv j attempt = Inr jb" "waiting (status jb)" by blast
  from Suc.hyps(1) [OF d] lt jb Suc.hyps(2) show ?case by (simp add: ra_waits)
qed

lemma poll_stuck:
  assumes "\<forall>k<maxAttempts. \<exists>jb. getJob srv j k = Inr jb \<and> waiting (status jb)"
  shows "fst (pollJobStatus_from srv j a attempt) = Inl (Error ''Job timed out'')
       \<and> length (filter is_poll (snd (pollJobStatus_from srv j a attempt))) = maxAttempts - attempt"
proof (induction "maxAttempts - attempt" arbitrary: attempt)
  case 0
  then show ?case by (simp add: poll_exhausted)
next
  case (Suc d)
  then have lt: "attempt < maxAttempts" and d: "d = maxAttempts - Suc attempt" by simp_all
  from assms lt obtain jb where jb: "getJob srv j attempt = Inr jb" "waiting (status jb)" by blast
  from Suc.hyps(1) [OF d] lt jb Suc.hyps(2) show ?case by (simp add: poll_waits)
qed

lemma srv_stuck_waits:
  "\<forall>k<maxAttempts. \<exists>jb. getJob srv_stuck j k = Inr jb \<and> waiting (status jb)"
  by (simp add: srv_stuck_def a_job_def waiting_def)


section \<open>Jobs that outlast the wait\<close>

lemma poll_after_terminal_stuck:
  assumes "\<forall>k<maxAttempts. \<exists>jb. getJob srv j k = Inr jb \<and> waiting (status jb)"
  shows "after_terminal prev (snd (pollJobStatus_from srv j a attempt) @ rest) = after_terminal prev rest"
proof (induction "maxAttempts - attempt" arbitrary: attempt)
  case 0
  then show ?case by (simp add: poll_exhausted)
next
  case (Suc d)
  then have lt: "attempt < maxAttempts" and d: "d = maxAttempts - Suc attempt" by simp_all
  from assms lt obtain jb where jb: "getJob srv j attempt = Inr jb" "waiting (status jb)" by blast
  from jb(2) have "\<not> terminal (status jb)" by (simp add: waiting_not_terminal)
  with Suc.hyps(1) [OF d] lt jb show ?case by (simp add: poll_waits)
qed

lemma poll_in_flight_stuck:
  assumes "\<forall>k<maxAttempts. \<exists>jb. getJob srv j k = Inr jb \<and> waiting (status jb)"
  shows "one_in_flight cur (snd (pollJobStatus_from srv j a attempt) @ rest) = one_in_flight cur rest"
proof (induction "maxAttempts - attempt" arbitrary: attempt)
  case 0
  then show ?case by (simp add: poll_exhausted)
next
  case (Suc d)
  then have lt: "attempt < maxAttempts" and d: "d = maxAttempts - Suc attempt" by simp_all
  from assms lt obtain jb where jb: "getJob srv j attempt = Inr jb" "waiting (status jb)" by blast
  from jb(2) have "\<not> terminal (status jb)" by (simp add: waiting_not_terminal)
  with Suc.hyps(1) [OF d] lt jb show ?case by (simp add: poll_waits)
qed

section \<open>The claims\<close>

text \<open>
  Claim C1 (every background job is polled once a second until a terminal status, at most
  600 times, and is then treated as timed out). The two waiting loops are not alike. On a
  server whose job is still running at every poll, \<open>pollJobStatus\<close> of the agent panel
  throws \<open>Job timed out\<close>; \<open>runAnalysis\<close> of the database page makes its 600 polls,
  leaves the loop without an exception, reloads the page's data as it does after a completed
  job, and ends with no error: the timeout is not reported.
\<close>

theorem run_analysis_drops_timeout:
  "fst (pollJobStatus srv_stuck ''job-explorer'' ''explorer'') = Inl (Error ''Job timed out'')
   \<and> length (filter is_poll (snd (runAnalysis srv_stuck None (Some 7) page0))) = 600
   \<and> last (snd (runAnalysis srv_stuck None (Some 7) page0)) = FetchData
   \<and> fst (runAnalysis srv_stuck None (Some 7) page0)
       = \<lparr>analyzing = False, loading = False, page_error = None\<rparr>"
proof -
  obtain r tr where rt: "runAnalysis_from srv_stuck ''job-explorer'' 0 = (r, tr)"
    by (cases "runAnalysis_from srv_stuck ''job-explorer'' 0")
  from ra_stuck [OF srv_stuck_waits, of "''job-explorer''" 0] rt
  have r: "r = None" and n: "length (filter is_poll tr) = 600"
    by (simp_all add: maxAttempts_def)
  have start: "runBackground srv_stuck ''explorer'' = Inr ''job-explorer''"
    by (simp add: srv_stuck_def)
  have run: "runAnalysis srv_stuck None (Some 7) page0 =
      (\<lparr>analyzing = False, loading = False, page_error = None\<rparr>,
       RunExplorerBackground 7 (Some ''job-explorer'') # tr @ [FetchData])"
    by (simp add: runAnalysis_def start rt r fetchData_def page0_def)
  from poll_stuck [OF srv_stuck_waits, of "''job-explorer''" "''explorer''" 0]
  have "fst (pollJobStatus srv_stuck ''job-explorer'' ''explorer'') = Inl (Error ''Job timed out'')"
    by (simp add: pollJobStatus_def)
  with run n show ?thesis by simp
qed

text \<open>
  Claim C2, as stated, says that every agent after a failing one is run to a terminal state.
  It is not: when the architect's job fails and the gardener's job is still running at the
  last of the 600 polls, the gardener is started, given up as \<open>Job timed out\<close>, and the run
  goes on to the partitioner.
\<close>

theorem later_agent_abandoned_at_poll_limit:
  "getJob srv_gardener_stuck ''job-gardener'' 599 = Inr (a_job Running None)
   \<and> starts (snd (runAllAgentsSequentially srv_gardener_stuck 7 False (\<lambda>i. NoPress) panel0))
       = [''explorer'', ''observer'', ''architect'', ''gardener'', ''partitioner'']
   \<and> agentStatus (fst (runAllAgentsSequentially srv_gardener_stuck 7 False (\<lambda>i. NoPress) panel0))
         ''architect'' = Some \<lparr>state = St_error, result = Some ''LLM timeout''\<rparr>
   \<and> agentStatus (fst (runAllAgentsSequentially srv_gardener_stuck 7 False (\<lambda>i. NoPress) panel0))
         ''gardener'' = Some \<lparr>state = St_error, result = Some ''Job timed out''\<rparr>"
proof -
  have h: "\<not> shouldStop panel0" by (simp add: panel0_def)
  have a: "''architect'' \<in> set (map agent_id (drop 0 agents))"
    and g: "''gardener'' \<in> set (map agent_id (drop 0 agents))"
    by (simp_all add: agent_ids)
  have oa: "own_outcome srv_gardener_stuck 7 ''architect'' = Inl (Error ''LLM timeout'')"
    by (simp add: own_outcome_def startAgentJob_def srv_gardener_stuck_def pollJobStatus_def
          poll_failed maxAttempts_def a_job_def or_else_def)
  have "\<forall>k<maxAttempts. \<exists>jb. getJob srv_gardener_stuck ''job-gardener'' k = Inr jb \<and> waiting (status jb)"
    by (simp add: srv_gardener_stuck_def a_job_def waiting_def)
  from poll_stuck [OF this, of "''gardener''" 0]
  have "fst (pollJobStatus srv_gardener_stuck ''job-gardener'' ''gardener'') = Inl (Error ''Job timed out'')"
    by (simp add: pollJobStatus_def)
  then have og: "own_outcome srv_gardener_stuck 7 ''gardener'' = Inl (Error ''Job timed out'')"
    by (simp add: own_outcome_def startAgentJob_def srv_gardener_stuck_def)
  have "getJob srv_gardener_stuck ''job-gardener'' 599 = Inr (a_job Running None)"
    by (simp add: srv_gardener_stuck_def)
  moreover have "starts (snd (runAllAgentsSequentially srv_gardener_stuck 7 False (\<lambda>i. NoPress) panel0))
       = [''explorer'', ''observer'', ''architect'', ''gardener'', ''partitioner'']"
    using runAll_starts [OF h] by (simp only: agent_ids)
  moreover have "agentStatus (fst (runAllAgentsSequentially srv_gardener_stuck 7 False (\<lambda>i. NoPress) panel0))
         ''architect'' = Some \<lparr>state = St_error, result = Some ''LLM timeout''\<rparr>"
    using h a oa by (simp add: runAll_state runLoop_status settled_def message_or_def)
  moreover have "agentStatus (fst (runAllAgentsSequentially srv_gardener_stuck 7 False (\<lambda>i. NoPress) panel0))
         ''gardener'' = Some \<lparr>state = St_error, result = Some ''Job timed out''\<rparr>"
    using h g og by (simp add: runAll_state runLoop_status settled_def message_or_def)
  ultimately show ?thesis by (intro conjI)
qed

text \<open>
  Claim C2, amended (a failing agent does not abort the run). In a run of all agents entered
  with the stop flag clear, a start request is sent for each of the five agents, the run
  ends, and the status of each agent depends on its own job alone: an agent whose start
  request or wait throws is marked \<open>error\<close> with the message of the exception, an agent
  whose wait returns is marked \<open>success\<close> with its summary. So when exactly one agent
  fails and four complete, the four results are present beside the one error.
\<close>

theorem run_all_survives_failure:
  assumes "\<not> shouldStop p"
  shows "starts (snd (runAllAgentsSequentially srv db cb click p)) = map agent_id agents
       \<and> \<not> runningAll (fst (runAllAgentsSequentially srv db cb click p))
       \<and> (\<forall>a \<in> set (map agent_id agents).
            (\<forall>e. own_outcome srv db a = Inl e \<longrightarrow>
                 agentStatus (fst (runAllAgentsSequentially srv db cb click p)) a
                   = Some \<lparr>state = St_error, result = Some (message_or e ''Failed'')\<rparr>)
          \<and> (\<forall>r. own_outcome srv db a = Inr r \<longrightarrow>
                 agentStatus (fst (runAllAgentsSequentially srv db cb click p)) a
                   = Some \<lparr>state = St_success, result = Some r\<rparr>))"
proof (intro conjI ballI allI impI)
  show "starts (snd (runAllAgentsSequentially srv db cb click p)) = map agent_id agents"
    using assms by (rule runAll_starts)
  show "\<not> runningAll (fst (runAllAgentsSequentially srv db cb click p))"
    by (simp add: runAll_state)
next
  fix a e
  assume "a \<in> set (map agent_id agents)" and "own_outcome srv db a = Inl e"
  then show "agentStatus (fst (runAllAgentsSequentially srv db cb click p)) a
                   = Some \<lparr>state = St_error, result = Some (message_or e ''Failed'')\<rparr>"
    using assms by (simp add: runAll_state runLoop_status settled_def)
next
  fix a r
  assume "a \<in> set (map agent_id agents)" and "own_outcome srv db a = Inr r"
  then show "agentStatus (fst (runAllAgentsSequentially srv db cb click p)) a
                   = Some \<lparr>state = St_success, result = Some r\<rparr>"
    using assms by (simp add: runAll_state runLoop_status settled_def)
qed

text \<open>
  Claim C2, an instance: the architect's job fails with \<open>LLM timeout\<close>; the gardener, which
  comes after it, is still run and its result is present, as is the explorer's report.
\<close>

theorem run_all_survives_failure_witness:
  "\<not> shouldStop panel0
   \<and> starts (snd (runAllAgentsSequentially srv_architect_fails 7 True (\<lambda>i. NoPress) panel0))
       = [''explorer'', ''observer'', ''architect'', ''gardener'', ''partitioner'']
   \<and> agentStatus (fst (runAllAgentsSequentially srv_architect_fails 7 True (\<lambda>i. NoPress) panel0))
         ''architect'' = Some \<lparr>state = St_error, result = Some ''LLM timeout''\<rparr>
   \<and> agentStatus (fst (runAllAgentsSequentially srv_architect_fails 7 True (\<lambda>i. NoPress) panel0))
         ''gardener'' = Some \<lparr>state = St_success, result = Some ''Completed''\<rparr>
   \<and> agentStatus (fst (runAllAgentsSequentially srv_architect_fails 7 True (\<lambda>i. NoPress) panel0))
         ''explorer'' = Some \<lparr>state = St_success, result = Some ''12 anomalies found''\<rparr>"
proof -
  have h: "\<not> shouldStop panel0" by (simp add: panel0_def)
  have a: "''architect'' \<in> set (map agent_id agents)" and g: "''gardener'' \<in> set (map agent_id agents)"
    and x: "''explorer'' \<in> set (map agent_id agents)"
    by (simp_all add: agent_ids)
  have st: "status explorer_report = Completed"
    by (simp add: explorer_report_def a_job_def)
  have ox: "own_outcome srv_architect_fails 7 ''explorer'' = Inr ''12 anomalies found''"
    by (simp add: own_outcome_def startAgentJob_def srv_architect_fails_def pollJobStatus_def
          poll_completed [where jb = explorer_report] st maxAttempts_def summary_example)
  have oa: "own_outcome srv_architect_fails 7 ''architect'' = Inl (Error ''LLM timeout'')"
    by (simp add: own_outcome_def startAgentJob_def srv_architect_fails_def pollJobStatus_def
          poll_failed maxAttempts_def a_job_def or_else_def)
  have og: "own_outcome srv_architect_fails 7 ''gardener'' = Inr ''Completed''"
    by (simp add: own_outcome_def startAgentJob_def srv_architect_fails_def pollJobStatus_def
          poll_completed maxAttempts_def a_job_def summary_def)
  note T = run_all_survives_failure [OF h, of srv_architect_fails 7 True "\<lambda>i. NoPress"]
  note T1 = T [THEN conjunct1]
  note Ta = T [THEN conjunct2, THEN conjunct2, THEN bspec, OF a, THEN conjunct1, rule_format, OF oa]
  note Tg = T [THEN conjunct2, THEN conjunct2, THEN bspec, OF g, THEN conjunct2, rule_format, OF og]
  note Tx = T [THEN conjunct2, THEN conjunct2, THEN bspec, OF x, THEN conjunct2, rule_format, OF ox]
  from h T1 Ta Tg Tx show ?thesis by (simp add: agent_ids message_or_def)
qed

text \<open>
  Claim C3 (after a stop request no further agent is started; the remaining agents are
  marked as stopped). The code checks \<open>shouldStop\<close> before each agent, but the value it
  checks is the constant of the render in which the run began. In the run below the user
  presses Stop while the explorer's job is in flight: the state \<open>shouldStop\<close> becomes true
  and the job is cancelled on request, and the explorer is marked \<open>Job cancelled\<close>; yet the
  observer, the architect, the gardener and the partitioner are all started and run, and no
  agent is marked \<open>Stopped by user\<close>.
\<close>

theorem stop_does_not_stop:
  "shouldStop (fst (runStep srv_cancelled 7 DuringWait 0 ''explorer'' panel0))
   \<and> snd (runAllAgentsSequentially srv_cancelled 7 True (\<lambda>i. if i = 0 then DuringWait else NoPress) panel0) =
     [UpdateAgentStatus ''explorer'' St_running None,
      RunExplorerBackground 7 (Some ''job-explorer''),
      CancelJob ''job-explorer'',
      GetJob ''job-explorer'' (Some Cancelled),
      UpdateAgentStatus ''explorer'' St_error (Some ''Job cancelled''),
      UpdateAgentStatus ''observer'' St_running None,
      RunObserverBackground 7 (Some ''job-observer''),
      GetJob ''job-observer'' (Some Completed),
      UpdateAgentStatus ''observer'' St_success (Some ''Completed''),
      UpdateAgentStatus ''architect'' St_running None,
      RunArchitectBackground 7 (Some ''job-architect''),
      GetJob ''job-architect'' (Some Completed),
      UpdateAgentStatus ''architect'' St_success (Some ''Completed''),
      UpdateAgentStatus ''gardener'' St_running None,
      RunGardenerBackground 7 (Some ''job-gardener''),
      GetJob ''job-gardener'' (Some Completed),
      UpdateAgentStatus ''gardener'' St_success (Some ''Completed''),
      UpdateAgentStatus ''partitioner'' St_running None,
      RunPartitionerBackground 7 (Some ''job-partitioner''),
      GetJob ''job-partitioner'' (Some Completed),
      UpdateAgentStatus ''partitioner'' St_success (Some ''Completed''),
      OnAnalysisComplete]"
proof
  show "shouldStop (fst (runStep srv_cancelled 7 DuringWait 0 ''explorer'' panel0))"
    by (simp add: runStep_def startAgentJob_def srv_cancelled_def Let_def stopAnalysis_def
          updateAgentStatus_def panel0_def split_beta split: sum.splits)
  show "snd (runAllAgentsSequentially srv_cancelled 7 True (\<lambda>i. if i = 0 then DuringWait else NoPress) panel0) = 
     [UpdateAgentStatus ''explorer'' St_running None,
      RunExplorerBackground 7 (Some ''job-explorer''),
      CancelJob ''job-explorer'',
      GetJob ''job-explorer'' (Some Cancelled),
      UpdateAgentStatus ''explorer'' St_error (Some ''Job cancelled''),
      UpdateAgentStatus ''observer'' St_running None,
      RunObserverBackground 7 (Some ''job-observer''),
      GetJob ''job-observer'' (Some Completed),
      UpdateAgentStatus ''observer'' St_success (Some ''Completed''),
      UpdateAgentStatus ''architect'' St_running None,
      RunArchitectBackground 7 (Some ''job-architect''),
      GetJob ''job-architect'' (Some Completed),
      UpdateAgentStatus ''architect'' St_success (Some ''Completed''),
      UpdateAgentStatus ''gardener'' St_running None,
      RunGardenerBackground 7 (Some ''job-gardener''),
      GetJob ''job-gardener'' (Some Completed),
      UpdateAgentStatus ''gardener'' St_success (Some ''Completed''),
      UpdateAgentStatus ''partitioner'' St_running None,
      RunPartitionerBackground 7 (Some ''job-partitioner''),
      GetJob ''job-partitioner'' (Some Completed),
      UpdateAgentStatus ''partitioner'' St_success (Some ''Completed''),
      OnAnalysisComplete]"
    apply (simp add: runAllAgentsSequentially_def panel0_def runLoop_go len_agents runLoop_done)
    apply (simp add: agents_def runStep_def startAgentJob_def srv_cancelled_def job_of_def Let_def)
    apply (simp add: pollJobStatus_def poll_completed poll_cancelled maxAttempts_def a_job_def
             stopAnalysis_def updateAgentStatus_def summary_def message_or_def)
    done
qed

text \<open>
  Claim C4, as stated, says that each agent is started only after the previous one reached a
  terminal state. The wait for the previous agent can end in other ways, and the next agent
  is started all the same: when the explorer's job is still running at the last of the 600
  polls; when a poll of the explorer's job throws; and when the start request for the
  explorer throws, so that there is no job at all.
\<close>

theorem next_agent_started_before_terminal:
  "getJob srv_stuck ''job-explorer'' 599 = Inr (a_job Running None)
   \<and> \<not> after_terminal None (snd (runAllAgentsSequentially srv_stuck 7 False (\<lambda>i. NoPress) panel0))
   \<and> \<not> after_terminal None (snd (runAllAgentsSequentially srv_unreachable 7 False (\<lambda>i. NoPress) panel0))
   \<and> \<not> after_terminal None (snd (runAllAgentsSequentially srv_no_explorer 7 False (\<lambda>i. NoPress) panel0))"
proof (intro conjI)
  show "getJob srv_stuck ''job-explorer'' 599 = Inr (a_job Running None)"
    by (simp add: srv_stuck_def)
  let ?p0 = "panel0\<lparr>runningAll := True, currentStep := 0, shouldStop := False, agentStatus := initialStatus\<rparr>"
  let ?p1 = "fst (runStep srv_stuck 7 NoPress 0 ''explorer'' ?p0)"
  let ?p2 = "fst (runStep srv_stuck 7 NoPress 1 ''observer'' ?p1)"
  have a0: "agent_id (agents ! 0) = ''explorer''" and a1: "agent_id (agents ! Suc 0) = ''observer''"
    by (simp_all add: agents_def)
  have tr: "snd (runAllAgentsSequentially srv_stuck 7 False (\<lambda>i. NoPress) panel0) =
      snd (runStep srv_stuck 7 NoPress 0 ''explorer'' ?p0) @
      snd (runStep srv_stuck 7 NoPress 1 ''observer'' ?p1) @
      snd (runLoop srv_stuck 7 (\<lambda>i. NoPress) False 2 ?p2)"
    by (simp add: runAll_trace panel0_def runLoop_go [of 0] runLoop_go [of "Suc 0"] len_agents a0 a1
          numeral_2_eq_2)
  have s0: "snd (runStep srv_stuck 7 NoPress 0 ''explorer'' ?p0) =
      UpdateAgentStatus ''explorer'' St_running None # RunExplorerBackground 7 (Some ''job-explorer'') #
      snd (pollJobStatus srv_stuck ''job-explorer'' ''explorer'') @
      [UpdateAgentStatus ''explorer'' St_error (Some ''Job timed out'')]"
    using poll_stuck [OF srv_stuck_waits, of "''job-explorer''" "''explorer''" 0]
    by (simp add: runStep_def startAgentJob_def srv_stuck_def job_of_def Let_def split_beta
          pollJobStatus_def message_or_def)
  have s1: "\<exists>xs. snd (runStep srv_stuck 7 NoPress 1 ''observer'' ?p1) =
      UpdateAgentStatus ''observer'' St_running None # RunObserverBackground 7 (Some ''job-observer'') # xs"
    by (simp add: runStep_def startAgentJob_def srv_stuck_def job_of_def Let_def split_beta
          split: sum.splits)
  then obtain xs where xs: "snd (runStep srv_stuck 7 NoPress 1 ''observer'' ?p1) =
      UpdateAgentStatus ''observer'' St_running None # RunObserverBackground 7 (Some ''job-observer'') # xs"
    by blast
  show "\<not> after_terminal None (snd (runAllAgentsSequentially srv_stuck 7 False (\<lambda>i. NoPress) panel0))"
    unfolding tr s0 xs
    by (simp add: pollJobStatus_def poll_after_terminal_stuck [OF srv_stuck_waits])
  show "\<not> after_terminal None (snd (runAllAgentsSequentially srv_unreachable 7 False (\<lambda>i. NoPress) panel0))"
    apply (simp add: runAllAgentsSequentially_def panel0_def runLoop_go len_agents runLoop_done)
    apply (simp add: agents_def runStep_def startAgentJob_def srv_unreachable_def job_of_def Let_def)
    apply (simp add: pollJobStatus_def poll_completed poll_throws maxAttempts_def a_job_def
             updateAgentStatus_def summary_def message_or_def)
    done
  show "\<not> after_terminal None (snd (runAllAgentsSequentially srv_no_explorer 7 False (\<lambda>i. NoPress) panel0))"
    apply (simp add: runAllAgentsSequentially_def panel0_def runLoop_go len_agents runLoop_done)
    apply (simp add: agents_def runStep_def startAgentJob_def srv_no_explorer_def job_of_def Let_def)
    apply (simp add: pollJobStatus_def poll_completed maxAttempts_def a_job_def
             updateAgentStatus_def summary_def message_or_def)
    done
qed

text \<open>
  Claim C4, amended (fixed order, one agent after the other). A run of all agents entered
  with the stop flag clear - as every run is that the panel can start, since the button is
  disabled while a run goes on and each run clears the flag when it ends - sends start
  requests for exactly the five agents explorer, observer, architect, gardener, partitioner,
  in that order. Each agent is started only when the wait for the previous one is over: the
  job of the previous agent was seen in a terminal status, or a poll of it threw, or its
  start request threw, or 600 polls of it were made; until then only that job is polled. By
  then the panel has settled the previous agent as \<open>success\<close> or \<open>error\<close>.
\<close>

theorem run_all_fixed_order:
  assumes "\<not> shouldStop p"
  shows "starts (snd (runAllAgentsSequentially srv db cb click p))
           = [''explorer'', ''observer'', ''architect'', ''gardener'', ''partitioner'']
       \<and> one_awaited None (snd (runAllAgentsSequentially srv db cb click p))
       \<and> sequential None (snd (runAllAgentsSequentially srv db cb click p))"
proof (intro conjI)
  show "starts (snd (runAllAgentsSequentially srv db cb click p))
           = [''explorer'', ''observer'', ''architect'', ''gardener'', ''partitioner'']"
    using runAll_starts [OF assms] by (simp only: agent_ids)
  have "wait_over None" by (simp add: wait_over_def)
  then show "one_awaited None (snd (runAllAgentsSequentially srv db cb click p))"
    using assms by (simp add: runAll_trace runLoop_awaited one_awaited_snoc)
  show "sequential None (snd (runAllAgentsSequentially srv db cb click p))"
    using assms by (simp add: runAll_trace runLoop_sequential sequential_snoc)
qed

text \<open>
  Claim C4, an instance: the order and the waits hold even on a server whose jobs never
  finish.
\<close>

theorem run_all_fixed_order_witness:
  "\<not> shouldStop panel0
   \<and> starts (snd (runAllAgentsSequentially srv_stuck 7 False (\<lambda>i. NoPress) panel0))
       = [''explorer'', ''observer'', ''architect'', ''gardener'', ''partitioner'']
   \<and> one_awaited None (snd (runAllAgentsSequentially srv_stuck 7 False (\<lambda>i. NoPress) panel0))
   \<and> sequential None (snd (runAllAgentsSequentially srv_stuck 7 False (\<lambda>i. NoPress) panel0))"
proof -
  have h: "\<not> shouldStop panel0" by (simp add: panel0_def)
  from h run_all_fixed_order [OF h, of srv_stuck 7 False "\<lambda>i. NoPress"] show ?thesis
    by (intro conjI) (elim conjE, assumption)+
qed

text \<open>
  Claim C5 (a job counts as running exactly when its status is \<open>pending\<close> or
  \<open>running\<close>). The activity page's list of running jobs holds a job of the list if and
  only if its status is one of the two, and so never a job in a terminal status; the hook's
  \<open>isRunning\<close> is true if and only if it holds a job in one of the two statuses.
\<close>

theorem running_iff_pending_or_running:
  "(j \<in> set (runningJobs jobs) \<longleftrightarrow> j \<in> set jobs \<and> (status j = Pending \<or> status j = Running))
   \<and> (terminal (status j) \<longrightarrow> j \<notin> set (runningJobs jobs))
   \<and> (isRunning h \<longleftrightarrow> (\<exists>jb. job h = Some jb \<and> (status jb = Pending \<or> status jb = Running)))
   \<and> (job h = Some j \<and> terminal (status j) \<longrightarrow> \<not> isRunning h)"
  by (auto simp add: runningJobs_def isRunning_def terminal_def split: option.splits)

text \<open>Claim C5, an instance: a failed job is left out, a pending job is kept.\<close>

theorem running_iff_pending_or_running_witness:
  "terminal (status (a_job Failed None))
   \<and> a_job Failed None \<notin> set (runningJobs [a_job Running None, a_job Failed None, a_job Pending None])
   \<and> a_job Pending None \<in> set (runningJobs [a_job Running None, a_job Failed None, a_job Pending None])
   \<and> job (hook0\<lparr>job := Some (a_job Failed None)\<rparr>) = Some (a_job Failed None)
   \<and> \<not> isRunning (hook0\<lparr>job := Some (a_job Failed None)\<rparr>)"
  using running_iff_pending_or_running
    [of "a_job Failed None" "[a_job Running None, a_job Failed None, a_job Pending None]"
        "hook0\<lparr>job := Some (a_job Failed None)\<rparr>"]
    running_iff_pending_or_running
    [of "a_job Pending None" "[a_job Running None, a_job Failed None, a_job Pending None]" hook0]
  by (simp add: a_job_def terminal_def)

text \<open>
  Claim C6, as stated, says that the generic message is used only when the error field is
  absent. A failed job whose error field is present but empty is also reported as
  \<open>Job failed\<close>, by \<open>pollJobStatus\<close> and by \<open>fetchJob\<close> alike.
\<close>

theorem generic_message_for_empty_error:
  "getJob srv_failed_empty ''job-explorer'' 0 = Inr (a_job Failed (Some []))
   \<and> error (a_job Failed (Some [])) \<noteq> None
   \<and> fst (pollJobStatus srv_failed_empty ''job-explorer'' ''explorer'') = Inl (Error ''Job failed'')
   \<and> fst (snd (fetchJob both_callbacks (Some ''job-explorer'') (Inr (a_job Failed (Some []))) True hook0))
       = [OnError ''Job failed'']"
  by (simp add: srv_failed_empty_def a_job_def pollJobStatus_def poll_failed maxAttempts_def
        or_else_def fetchJob_def both_callbacks_def hook0_def stopPolling_def)

text \<open>
  Claim C6, amended (the error of a failed job is preserved). When the wait of
  \<open>pollJobStatus\<close> comes to a poll that sees the job failed, the exception it throws
  carries the job's error field if that field is a non-empty string, and \<open>Job failed\<close>
  if the field is null or empty. \<open>fetchJob\<close>, given an \<open>onError\<close>, calls it first with
  the same message, and that is its only call when the callback returns.
\<close>

theorem failed_error_reported:
  assumes "n < maxAttempts"
    and "\<forall>k<n. \<exists>jb. getJob srv j k = Inr jb \<and> waiting (status jb)"
    and "getJob srv j n = Inr jb"
    and "status jb = Failed"
  shows "fst (pollJobStatus srv j a)
           = Inl (Error (case error jb of None \<Rightarrow> ''Job failed''
                                        | Some m \<Rightarrow> if m = [] then ''Job failed'' else m))
       \<and> (jobId \<noteq> None \<and> jobId \<noteq> Some [] \<and> mounted h \<and> onError opts = Some g \<longrightarrow>
            (\<exists>more. fst (snd (fetchJob opts jobId (Inr jb) True h))
               = OnError (case error jb of None \<Rightarrow> ''Job failed''
                                          | Some m \<Rightarrow> if m = [] then ''Job failed'' else m) # more)
          \<and> (g (case error jb of None \<Rightarrow> ''Job failed''
                                 | Some m \<Rightarrow> if m = [] then ''Job failed'' else m) = None \<longrightarrow>
               fst (snd (fetchJob opts jobId (Inr jb) True h))
                 = [OnError (case error jb of None \<Rightarrow> ''Job failed''
                                            | Some m \<Rightarrow> if m = [] then ''Job failed'' else m)]))"
proof
  from assms(1) have "n \<le> maxAttempts" by simp
  from poll_skip [OF this assms(2)]
  have "fst (pollJobStatus srv j a) = fst (pollJobStatus_from srv j a n)" .
  also from assms have "\<dots> = Inl (Error (or_else (error jb) ''Job failed''))"
    by (simp add: poll_failed)
  finally show "fst (pollJobStatus srv j a)
           = Inl (Error (case error jb of None \<Rightarrow> ''Job failed''
                                        | Some m \<Rightarrow> if m = [] then ''Job failed'' else m))"
    by (simp add: or_else_def)
  let ?msg = "case error jb of None \<Rightarrow> ''Job failed'' | Some m \<Rightarrow> if m = [] then ''Job failed'' else m"
  have msg: "or_else (error jb) ''Job failed'' = ?msg"
    by (simp add: or_else_def)
  show "jobId \<noteq> None \<and> jobId \<noteq> Some [] \<and> mounted h \<and> onError opts = Some g \<longrightarrow>
            (\<exists>more. fst (snd (fetchJob opts jobId (Inr jb) True h)) = OnError ?msg # more)
          \<and> (g ?msg = None \<longrightarrow> fst (snd (fetchJob opts jobId (Inr jb) True h)) = [OnError ?msg])"
    using assms(4)
    by (cases "g ?msg")
       (auto simp add: fetchJob_def Let_def msg split_beta)
qed

text \<open>
  Claim C6, an instance: a job seen running twice and then failed with \<open>LLM timeout\<close>.
\<close>

theorem failed_error_reported_witness:
  "(2::nat) < maxAttempts
   \<and> getJob srv_late_failure ''job-architect'' 0 = Inr (a_job Running None)
   \<and> getJob srv_late_failure ''job-architect'' 1 = Inr (a_job Running None)
   \<and> waiting (status (a_job Running None))
   \<and> getJob srv_late_failure ''job-architect'' 2 = Inr (a_job Failed (Some ''LLM timeout''))
   \<and> status (a_job Failed (Some ''LLM timeout'')) = Failed
   \<and> fst (pollJobStatus srv_late_failure ''job-architect'' ''architect'') = Inl (Error ''LLM timeout'')
   \<and> fst (snd (fetchJob both_callbacks (Some ''job-architect'')
             (Inr (a_job Failed (Some ''LLM timeout''))) True hook0)) = [OnError ''LLM timeout'']"
proof -
  have h1: "(2::nat) < maxAttempts" by (simp add: maxAttempts_def)
  have h2: "\<forall>k<2. \<exists>jb. getJob srv_late_failure ''job-architect'' k = Inr jb \<and> waiting (status jb)"
    by (simp add: srv_late_failure_def waiting_def a_job_def)
  have h3: "getJob srv_late_failure ''job-architect'' 2 = Inr (a_job Failed (Some ''LLM timeout''))"
    by (simp add: srv_late_failure_def)
  have h4: "status (a_job Failed (Some ''LLM timeout'')) = Failed"
    by (simp add: a_job_def)
  have pre: "Some ''job-architect'' \<noteq> None \<and> Some ''job-architect'' \<noteq> Some [] \<and> mounted hook0
      \<and> onError both_callbacks = Some (\<lambda>m. None)"
    by (simp add: hook0_def both_callbacks_def)
  note T = failed_error_reported [OF h1 h2 h3 h4,
      where a = "''architect''" and jobId = "Some ''job-architect''" and h = hook0
        and opts = both_callbacks and g = "\<lambda>m. None"]
  note T1 = T [THEN conjunct1]
  note T2 = T [THEN conjunct2, rule_format, OF pre, THEN conjunct2, rule_format, OF refl]
  have w: "getJob srv_late_failure ''job-architect'' 0 = Inr (a_job Running None)"
    "getJob srv_late_failure ''job-architect'' 1 = Inr (a_job Running None)"
    "waiting (status (a_job Running None))"
    by (simp_all add: srv_late_failure_def waiting_def a_job_def)
  from h1 w h3 h4 T1 T2 show ?thesis by (simp add: a_job_def)
qed

text \<open>
  Claim C7, as stated, says that the message for a cancelled job differs from the message of
  every failed job. A failed job whose error field reads \<open>Job cancelled\<close> makes
  \<open>pollJobStatus\<close> throw the very exception a cancelled job does, and a failed job whose
  error field reads \<open>Analysis cancelled\<close> leaves the database page with the very error a
  cancelled job does.
\<close>

theorem failed_job_can_read_as_cancelled:
  "getJob srv_failed_marker ''job-explorer'' 0 = Inr (a_job Failed (Some ''Job cancelled''))
   \<and> getJob srv_cancelled ''job-explorer'' 0 = Inr (a_job Cancelled (Some ''Cancelled by user''))
   \<and> fst (pollJobStatus srv_failed_marker ''job-explorer'' ''explorer'')
       = fst (pollJobStatus srv_cancelled ''job-explorer'' ''explorer'')
   \<and> getJob srv_failed_page_marker ''job-explorer'' 0 = Inr (a_job Failed (Some ''Analysis cancelled''))
   \<and> page_error (fst (runAnalysis srv_failed_page_marker None (Some 7) page0))
       = page_error (fst (runAnalysis srv_cancelled None (Some 7) page0))"
proof -
  have "runAnalysis_from srv_failed_page_marker ''job-explorer'' 0
      = (Some (Error ''Analysis cancelled''), [GetJob ''job-explorer'' (Some Failed)])"
    by (simp add: ra_failed [where jb = "a_job Failed (Some ''Analysis cancelled'')"]
          srv_failed_page_marker_def maxAttempts_def a_job_def or_else_def)
  moreover have "runAnalysis_from srv_cancelled ''job-explorer'' 0
      = (Some (Error ''Analysis cancelled''), [GetJob ''job-explorer'' (Some Cancelled)])"
    by (simp add: ra_cancelled [where jb = "a_job Cancelled (Some ''Cancelled by user'')"]
          srv_cancelled_def maxAttempts_def a_job_def)
  ultimately have "page_error (fst (runAnalysis srv_failed_page_marker None (Some 7) page0))
       = page_error (fst (runAnalysis srv_cancelled None (Some 7) page0))"
    by (simp add: runAnalysis_def srv_failed_page_marker_def srv_cancelled_def)
  then show ?thesis
    by (simp add: srv_failed_marker_def srv_failed_page_marker_def srv_cancelled_def a_job_def
          pollJobStatus_def poll_failed poll_cancelled maxAttempts_def or_else_def)
qed

text \<open>
  Claim C7, amended (a cancelled job is reported by a fixed text). When the wait comes to a
  poll that sees the job cancelled, \<open>pollJobStatus\<close> throws \<open>Job cancelled\<close> and
  \<open>runAnalysis\<close> leaves \<open>Analysis cancelled\<close> as the page's error, whatever the job's
  error field holds. A failed job is reported differently by either of them unless its error
  field is that very text: at the poll that sees a job failed with another error field,
  \<open>pollJobStatus\<close> does not throw \<open>Job cancelled\<close> and the loop of \<open>runAnalysis\<close>
  does not throw \<open>Analysis cancelled\<close>; and a wait that comes to such a poll ends with
  another exception for \<open>pollJobStatus\<close> and another error on the page.
\<close>

theorem cancelled_reported_by_fixed_text:
  assumes "n < maxAttempts"
    and "\<forall>k<n. \<exists>jb. getJob srv j k = Inr jb \<and> waiting (status jb)"
    and "getJob srv j n = Inr jb"
    and "status jb = Cancelled"
  shows "fst (pollJobStatus srv j a) = Inl (Error ''Job cancelled'')
       \<and> (runBackground srv ''explorer'' = Inr j \<and> db \<noteq> 0 \<longrightarrow>
            page_error (fst (runAnalysis srv gd (Some db) pg)) = Some ''Analysis cancelled'')
       \<and> (\<forall>srv' j' a' n' jb'.
            n' < maxAttempts \<and> getJob srv' j' n' = Inr jb' \<and> status jb' = Failed
            \<and> error jb' \<noteq> Some ''Job cancelled'' \<longrightarrow>
            fst (pollJobStatus_from srv' j' a' n') \<noteq> Inl (Error ''Job cancelled''))
       \<and> (\<forall>srv' j' n' jb'.
            n' < maxAttempts \<and> getJob srv' j' n' = Inr jb' \<and> status jb' = Failed
            \<and> error jb' \<noteq> Some ''Analysis cancelled'' \<longrightarrow>
            fst (runAnalysis_from srv' j' n') \<noteq> Some (Error ''Analysis cancelled''))
       \<and> (\<forall>srv' j' a' n' jb'.
            n' < maxAttempts \<and> (\<forall>k<n'. \<exists>jb. getJob srv' j' k = Inr jb \<and> waiting (status jb))
            \<and> getJob srv' j' n' = Inr jb' \<and> status jb' = Failed
            \<and> error jb' \<noteq> Some ''Job cancelled'' \<longrightarrow>
            fst (pollJobStatus srv' j' a') \<noteq> Inl (Error ''Job cancelled''))
       \<and> (\<forall>srv' j' n' jb' db' gd' pg'.
            runBackground srv' ''explorer'' = Inr j' \<and> db' \<noteq> 0
            \<and> n' < maxAttempts \<and> (\<forall>k<n'. \<exists>jb. getJob srv' j' k = Inr jb \<and> waiting (status jb))
            \<and> getJob srv' j' n' = Inr jb' \<and> status jb' = Failed
            \<and> error jb' \<noteq> Some ''Analysis cancelled'' \<longrightarrow>
            page_error (fst (runAnalysis srv' gd' (Some db') pg')) \<noteq> Some ''Analysis cancelled'')"
proof -
  from assms(1) have le: "n \<le> maxAttempts" by simp
  from poll_skip [OF le assms(2)]
  have "fst (pollJobStatus srv j a) = fst (pollJobStatus_from srv j a n)" .
  also from assms have "\<dots> = Inl (Error ''Job cancelled'')"
    by (simp add: poll_cancelled)
  finally have c1: "fst (pollJobStatus srv j a) = Inl (Error ''Job cancelled'')" .
  from ra_skip [OF le assms(2)] assms
  have ra: "fst (runAnalysis_from srv j 0) = Some (Error ''Analysis cancelled'')"
    by (simp add: ra_cancelled)
  have c2: "runBackground srv ''explorer'' = Inr j \<and> db \<noteq> 0 \<longrightarrow>
            page_error (fst (runAnalysis srv gd (Some db) pg)) = Some ''Analysis cancelled''"
    using ra by (simp add: ra_page_error message_or_def)
  have c3: "\<forall>srv' j' a' n' jb'.
            n' < maxAttempts \<and> getJob srv' j' n' = Inr jb' \<and> status jb' = Failed
            \<and> error jb' \<noteq> Some ''Job cancelled'' \<longrightarrow>
            fst (pollJobStatus_from srv' j' a' n') \<noteq> Inl (Error ''Job cancelled'')"
    by (auto simp add: poll_failed or_else_def split: option.splits)
  have c4: "\<forall>srv' j' n' jb'.
            n' < maxAttempts \<and> getJob srv' j' n' = Inr jb' \<and> status jb' = Failed
            \<and> error jb' \<noteq> Some ''Analysis cancelled'' \<longrightarrow>
            fst (runAnalysis_from srv' j' n') \<noteq> Some (Error ''Analysis cancelled'')"
    by (auto simp add: ra_failed or_else_def split: option.splits)
  have c5: "\<forall>srv' j' a' n' jb'.
            n' < maxAttempts \<and> (\<forall>k<n'. \<exists>jb. getJob srv' j' k = Inr jb \<and> waiting (status jb))
            \<and> getJob srv' j' n' = Inr jb' \<and> status jb' = Failed
            \<and> error jb' \<noteq> Some ''Job cancelled'' \<longrightarrow>
            fst (pollJobStatus srv' j' a') \<noteq> Inl (Error ''Job cancelled'')"
  proof (intro allI impI)
    fix srv' :: server and j' a' n' jb'
    assume f: "n' < maxAttempts \<and> (\<forall>k<n'. \<exists>jb. getJob srv' j' k = Inr jb \<and> waiting (status jb))
            \<and> getJob srv' j' n' = Inr jb' \<and> status jb' = Failed
            \<and> error jb' \<noteq> Some ''Job cancelled''"
    then have "n' \<le> maxAttempts" by simp
    from poll_skip [OF this f [THEN conjunct2, THEN conjunct1]]
    have "fst (pollJobStatus srv' j' a') = fst (pollJobStatus_from srv' j' a' n')" .
    with c3 f show "fst (pollJobStatus srv' j' a') \<noteq> Inl (Error ''Job cancelled'')"
      by simp
  qed
  have c6: "\<forall>srv' j' n' jb' db' gd' pg'.
            runBackground srv' ''explorer'' = Inr j' \<and> db' \<noteq> 0
            \<and> n' < maxAttempts \<and> (\<forall>k<n'. \<exists>jb. getJob srv' j' k = Inr jb \<and> waiting (status jb))
            \<and> getJob srv' j' n' = Inr jb' \<and> status jb' = Failed
            \<and> error jb' \<noteq> Some ''Analysis cancelled'' \<longrightarrow>
            page_error (fst (runAnalysis srv' gd' (Some db') pg')) \<noteq> Some ''Analysis cancelled''"
  proof (intro allI impI)
    fix srv' :: server and db' :: int and j' n' jb' gd' pg'
    assume f: "runBackground srv' ''explorer'' = Inr j' \<and> db' \<noteq> 0
            \<and> n' < maxAttempts \<and> (\<forall>k<n'. \<exists>jb. getJob srv' j' k = Inr jb \<and> waiting (status jb))
            \<and> getJob srv' j' n' = Inr jb' \<and> status jb' = Failed
            \<and> error jb' \<noteq> Some ''Analysis cancelled''"
    then have "n' \<le> maxAttempts" by simp
    from ra_skip [OF this f [THEN conjunct2, THEN conjunct2, THEN conjunct2, THEN conjunct1]]
    have "fst (runAnalysis_from srv' j' 0) = fst (runAnalysis_from srv' j' n')" .
    also from f have "\<dots> = Some (Error (or_else (error jb') ''Analysis failed''))"
      by (simp add: ra_failed)
    finally have "fst (runAnalysis_from srv' j' 0) = Some (Error (or_else (error jb') ''Analysis failed''))" .
    with f show "page_error (fst (runAnalysis srv' gd' (Some db') pg')) \<noteq> Some ''Analysis cancelled''"
      by (auto simp add: ra_page_error message_or_def or_else_def split: option.splits)
  qed
  from c1 c2 c3 c4 c5 c6 show ?thesis by (intro conjI)
qed

text \<open>
  Claim C7, an instance: a job seen pending once and then cancelled, with an error field of
  its own that is not shown; beside it a job that fails with \<open>LLM timeout\<close>, which neither
  reporter shows as a cancellation.
\<close>

theorem cancelled_reported_by_fixed_text_witness:
  "(1::nat) < maxAttempts
   \<and> getJob srv_late_cancel ''job-explorer'' 0 = Inr (a_job Pending None)
   \<and> waiting (status (a_job Pending None))
   \<and> getJob srv_late_cancel ''job-explorer'' 1 = Inr (a_job Cancelled (Some ''connection lost''))
   \<and> status (a_job Cancelled (Some ''connection lost'')) = Cancelled
   \<and> fst (pollJobStatus srv_late_cancel ''job-explorer'' ''explorer'') = Inl (Error ''Job cancelled'')
   \<and> page_error (fst (runAnalysis srv_late_cancel None (Some 7) page0)) = Some ''Analysis cancelled''
   \<and> fst (pollJobStatus_from srv_late_failure ''job-architect'' ''architect'' 2)
       \<noteq> Inl (Error ''Job cancelled'')
   \<and> fst (runAnalysis_from srv_late_failure ''job-explorer'' 2) \<noteq> Some (Error ''Analysis cancelled'')
   \<and> fst (pollJobStatus srv_late_failure ''job-architect'' ''architect'') \<noteq> Inl (Error ''Job cancelled'')
   \<and> page_error (fst (runAnalysis srv_late_failure None (Some 7) page0)) \<noteq> Some ''Analysis cancelled''"
proof -
  have h1: "(1::nat) < maxAttempts" by (simp add: maxAttempts_def)
  have h2: "\<forall>k<1. \<exists>jb. getJob srv_late_cancel ''job-explorer'' k = Inr jb \<and> waiting (status jb)"
    by (simp add: srv_late_cancel_def waiting_def a_job_def)
  have h3: "getJob srv_late_cancel ''job-explorer'' 1 = Inr (a_job Cancelled (Some ''connection lost''))"
    by (simp add: srv_late_cancel_def)
  have h4: "status (a_job Cancelled (Some ''connection lost'')) = Cancelled"
    by (simp add: a_job_def)
  have s: "runBackground srv_late_cancel ''explorer'' = Inr ''job-explorer'' \<and> (7::int) \<noteq> 0"
    by (simp add: srv_late_cancel_def)
  have f3: "(2::nat) < maxAttempts
      \<and> getJob srv_late_failure ''job-architect'' 2 = Inr (a_job Failed (Some ''LLM timeout''))
      \<and> status (a_job Failed (Some ''LLM timeout'')) = Failed
      \<and> error (a_job Failed (Some ''LLM timeout'')) \<noteq> Some ''Job cancelled''"
    by (simp add: maxAttempts_def srv_late_failure_def a_job_def)
  have f4: "(2::nat) < maxAttempts
      \<and> getJob srv_late_failure ''job-explorer'' 2 = Inr (a_job Failed (Some ''LLM timeout''))
      \<and> status (a_job Failed (Some ''LLM timeout'')) = Failed
      \<and> error (a_job Failed (Some ''LLM timeout'')) \<noteq> Some ''Analysis cancelled''"
    by (simp add: maxAttempts_def srv_late_failure_def a_job_def)
  have f5: "(2::nat) < maxAttempts
      \<and> (\<forall>k<2. \<exists>jb. getJob srv_late_failure ''job-architect'' k = Inr jb \<and> waiting (status jb))
      \<and> getJob srv_late_failure ''job-architect'' 2 = Inr (a_job Failed (Some ''LLM timeout''))
      \<and> status (a_job Failed (Some ''LLM timeout'')) = Failed
      \<and> error (a_job Failed (Some ''LLM timeout'')) \<noteq> Some ''Job cancelled''"
    by (simp add: maxAttempts_def srv_late_failure_def a_job_def waiting_def)
  have f6: "runBackground srv_late_failure ''explorer'' = Inr ''job-explorer'' \<and> (7::int) \<noteq> 0
      \<and> (2::nat) < maxAttempts
      \<and> (\<forall>k<2. \<exists>jb. getJob srv_late_failure ''job-explorer'' k = Inr jb \<and> waiting (status jb))
      \<and> getJob srv_late_failure ''job-explorer'' 2 = Inr (a_job Failed (Some ''LLM timeout''))
      \<and> status (a_job Failed (Some ''LLM timeout'')) = Failed
      \<and> error (a_job Failed (Some ''LLM timeout'')) \<noteq> Some ''Analysis cancelled''"
    by (simp add: maxAttempts_def srv_late_failure_def a_job_def waiting_def)
  note T = cancelled_reported_by_fixed_text [OF h1 h2 h3 h4, of "''explorer''" 7 None page0]
  note T1 = T [THEN conjunct1]
  note T2 = T [THEN conjunct2, THEN conjunct1, rule_format, OF s]
  note T3 = T [THEN conjunct2, THEN conjunct2, THEN conjunct1, rule_format, OF f3]
  note T4 = T [THEN conjunct2, THEN conjunct2, THEN conjunct2, THEN conjunct1, rule_format, OF f4]
  note T5 = T [THEN conjunct2, THEN conjunct2, THEN conjunct2, THEN conjunct2, THEN conjunct1,
               rule_format, OF f5]
  note T6 = T [THEN conjunct2, THEN conjunct2, THEN conjunct2, THEN conjunct2, THEN conjunct2,
               rule_format, OF f6]
  have w: "getJob srv_late_cancel ''job-explorer'' 0 = Inr (a_job Pending None)"
    "waiting (status (a_job Pending None))"
    by (simp_all add: srv_late_cancel_def waiting_def a_job_def)
  from h1 w h3 h4 T1 T2 T3 T4 T5 T6 show ?thesis by (intro conjI)
qed

text \<open>
  Claim C8, as stated, says that each job is awaited to its terminal state, so that at most
  one job is in flight. When the gardener's job is still running at the last of the 600
  polls, the partitioner's job is started while the gardener's is in flight.
\<close>

theorem next_job_started_while_one_in_flight:
  "getJob srv_gardener_stuck ''job-gardener'' 599 = Inr (a_job Running None)
   \<and> starts (snd (runAllAgentsSequentially srv_gardener_stuck 7 False (\<lambda>i. NoPress) panel0))
       = [''explorer'', ''observer'', ''architect'', ''gardener'', ''partitioner'']
   \<and> \<not> one_in_flight None (snd (runAllAgentsSequentially srv_gardener_stuck 7 False (\<lambda>i. NoPress) panel0))"
proof (intro conjI)
  have h: "\<not> shouldStop panel0" by (simp add: panel0_def)
  show "getJob srv_gardener_stuck ''job-gardener'' 599 = Inr (a_job Running None)"
    by (simp add: srv_gardener_stuck_def)
  show "starts (snd (runAllAgentsSequentially srv_gardener_stuck 7 False (\<lambda>i. NoPress) panel0))
       = [''explorer'', ''observer'', ''architect'', ''gardener'', ''partitioner'']"
    using runAll_starts [OF h] by (simp only: agent_ids)
  have stuck: "\<forall>k<maxAttempts. \<exists>jb. getJob srv_gardener_stuck ''job-gardener'' k = Inr jb \<and> waiting (status jb)"
    by (simp add: srv_gardener_stuck_def a_job_def waiting_def)
  have timed_out: "fst (pollJobStatus_from srv_gardener_stuck ''job-gardener'' ''gardener'' 0)
      = Inl (Error ''Job timed out'')"
    using poll_stuck [OF stuck, of "''gardener''" 0] by simp
  have other: "j \<noteq> ''job-gardener'' \<Longrightarrow> j \<noteq> ''job-architect'' \<Longrightarrow>
     pollJobStatus_from srv_gardener_stuck j a 0 = (Inr ''Completed'', [GetJob j (Some Completed)])" for j a
    by (simp add: poll_completed [where jb = "a_job Completed None"] srv_gardener_stuck_def
          maxAttempts_def a_job_def summary_def)
  have arch: "pollJobStatus_from srv_gardener_stuck ''job-architect'' a 0
     = (Inl (Error ''LLM timeout''), [GetJob ''job-architect'' (Some Failed)])" for a
    by (simp add: poll_failed [where jb = "a_job Failed (Some ''LLM timeout'')"] srv_gardener_stuck_def
          maxAttempts_def a_job_def or_else_def)
  have run: "runBackground srv_gardener_stuck a = Inr (''job-'' @ a)" for a
    by (simp add: srv_gardener_stuck_def)
  show "\<not> one_in_flight None (snd (runAllAgentsSequentially srv_gardener_stuck 7 False (\<lambda>i. NoPress) panel0))"
    apply (simp add: runAll_trace panel0_def runLoop_go len_agents runLoop_done)
    apply (simp add: agents_def runStep_def startAgentJob_def run job_of_def Let_def split_beta
             pollJobStatus_def other arch timed_out terminal_def
             poll_in_flight_stuck [OF stuck])
    done
qed

text \<open>
  Claim C8, amended (Run All works through single-agent jobs, one wait at a time). A run
  never sends the request for the \<open>all\<close> pipeline. It polls only the job that the last
  start request returned, at most 600 times, and sends a start request only when no wait is
  open: the last poll saw a terminal status or threw, the last start request threw, or 600
  polls have been made. Entered with the stop flag clear it sends exactly five start
  requests, one for each agent in the fixed order. And \<open>startAgentJob\<close> throws
  \<open>Unknown agent\<close>, sending nothing, for every name outside the five.
\<close>

theorem run_all_one_awaited:
  "(\<forall>d r. RunAllAgentsBackground d r \<notin> set (snd (runAllAgentsSequentially srv db cb click p)))
   \<and> one_awaited None (snd (runAllAgentsSequentially srv db cb click p))
   \<and> (\<not> shouldStop p \<longrightarrow>
        starts (snd (runAllAgentsSequentially srv db cb click p))
          = [''explorer'', ''observer'', ''architect'', ''gardener'', ''partitioner''])
   \<and> (a \<notin> set [''explorer'', ''observer'', ''architect'', ''gardener'', ''partitioner''] \<longrightarrow>
        startAgentJob srv db a = (Inl (Error (''Unknown agent: '' @ a)), []))"
proof (intro conjI allI impI)
  let ?tr = "snd (runAllAgentsSequentially srv db cb click p)"
  have sub: "set (starts ?tr) \<subseteq> set (map agent_id agents)"
  proof (cases "shouldStop p")
    case True
    then show ?thesis
      by (simp add: runAll_trace starts_append runLoop_stopped markStopped_starts)
  next
    case False
    then show ?thesis by (simp add: runAll_starts)
  qed
  show "RunAllAgentsBackground d r \<notin> set ?tr" for d r
  proof
    assume "RunAllAgentsBackground d r \<in> set ?tr"
    then have "''all'' \<in> set (starts ?tr)" by (rule starts_mem) simp
    with sub all_not_agent show False by blast
  qed
  have none: "wait_over None" by (simp add: wait_over_def)
  show "one_awaited None ?tr"
  proof (cases "shouldStop p")
    case True
    then show ?thesis
      by (simp add: runAll_trace runLoop_stopped markStopped_awaited one_awaited_snoc)
  next
    case False
    then show ?thesis
      by (simp add: runAll_trace runLoop_awaited [OF none] one_awaited_snoc)
  qed
  show "starts ?tr = [''explorer'', ''observer'', ''architect'', ''gardener'', ''partitioner'']"
    if "\<not> shouldStop p"
    using runAll_starts [OF that] by (simp only: agent_ids)
  show "startAgentJob srv db a = (Inl (Error (''Unknown agent: '' @ a)), [])"
    if "a \<notin> set [''explorer'', ''observer'', ''architect'', ''gardener'', ''partitioner'']"
  proof (rule start_unknown)
    from that show "a \<notin> set (map agent_id agents)" unfolding agent_ids .
  qed
qed

text \<open>
  Claim C8, an instance: a run on a server that cannot answer the polls of the explorer's
  job, and \<open>startAgentJob\<close> called with the name \<open>all\<close>.
\<close>

theorem run_all_one_awaited_witness:
  "\<not> shouldStop panel0
   \<and> ''all'' \<notin> set [''explorer'', ''observer'', ''architect'', ''gardener'', ''partitioner'']
   \<and> starts (snd (runAllAgentsSequentially srv_unreachable 7 False (\<lambda>i. NoPress) panel0))
       = [''explorer'', ''observer'', ''architect'', ''gardener'', ''partitioner'']
   \<and> one_awaited None (snd (runAllAgentsSequentially srv_unreachable 7 False (\<lambda>i. NoPress) panel0))
   \<and> startAgentJob srv_unreachable 7 ''all'' = (Inl (Error ''Unknown agent: all''), [])"
proof -
  have h: "\<not> shouldStop panel0" by (simp add: panel0_def)
  have u: "''all'' \<notin> set [''explorer'', ''observer'', ''architect'', ''gardener'', ''partitioner'']"
    by simp
  note T = run_all_one_awaited [of srv_unreachable 7 False "\<lambda>i. NoPress" panel0 "''all''"]
  note T2 = T [THEN conjunct2, THEN conjunct1]
  note T3 = T [THEN conjunct2, THEN conjunct2, THEN conjunct1, rule_format, OF h]
  note T4 = T [THEN conjunct2, THEN conjunct2, THEN conjunct2, rule_format, OF u]
  from h u T2 T3 T4 show ?thesis by simp
qed

text \<open>
  Claim C9, as stated, says that \<open>onError\<close> is called only for a failed job or a fetch
  error. The callbacks are called inside the try block of \<open>fetchJob\<close>: when the job is
  completed, the request has succeeded and \<open>onComplete\<close> throws, the catch block stores the
  message of that exception as the error and calls \<open>onError\<close> with it.
\<close>

theorem onError_called_for_completed_job:
  "status (a_job Completed None) = Completed
   \<and> fetchJob failing_onComplete (Some ''job-1'') (Inr (a_job Completed None)) True hook0
       = (hook0\<lparr>job := Some (a_job Completed None),
                polling_error := Some ''Cannot read properties of undefined'',
                interval := False\<rparr>,
          [OnComplete (a_job Completed None), OnError ''Cannot read properties of undefined''],
          None)"
  by (simp add: fetchJob_def fetchJob_catch_def failing_onComplete_def hook0_def a_job_def
        stopPolling_def message_or_def Let_def)

text \<open>
  Claim C9, amended (a cancelled job ends the hook silently). When \<open>fetchJob\<close> of a mounted
  hook sees a cancelled job it stores the job, clears the error, stops the timer, calls no
  callback and ends without an exception, whatever the callbacks are. \<open>onComplete\<close> is
  called only with a job that was seen completed. \<open>onError\<close> is called only when the job
  was seen failed, or the request threw, or the job was seen completed and \<open>onComplete\<close>
  threw; in the last case it is called with the message of that exception.
\<close>

theorem cancelled_job_is_silent:
  "(jobId \<noteq> None \<and> jobId \<noteq> Some [] \<and> mounted h \<and> status jb = Cancelled \<longrightarrow>
      fetchJob opts jobId (Inr jb) True h
        = (h\<lparr>job := Some jb, polling_error := None, interval := False\<rparr>, [], None))
   \<and> (OnComplete x \<in> set (fst (snd (fetchJob opts jobId response m h))) \<longrightarrow>
        response = Inr x \<and> status x = Completed)
   \<and> (OnError msg \<in> set (fst (snd (fetchJob opts jobId response m h))) \<longrightarrow>
        (\<exists>jb'. response = Inr jb' \<and> status jb' = Failed) \<or> (\<exists>e. response = Inl e)
        \<or> (\<exists>jb' f e. response = Inr jb' \<and> status jb' = Completed \<and> onComplete opts = Some f
              \<and> f jb' = Some e \<and> msg = message_or e ''Failed to fetch job status''))"
proof -
  have silent: "jobId \<noteq> None \<and> jobId \<noteq> Some [] \<and> mounted h \<and> status jb = Cancelled \<longrightarrow>
      fetchJob opts jobId (Inr jb) True h
        = (h\<lparr>job := Some jb, polling_error := None, interval := False\<rparr>, [], None)"
    by (auto simp add: fetchJob_def stopPolling_def)
  have catch_calls: "c \<in> set (fst (snd (fetchJob_catch opts e h'))) \<Longrightarrow>
      c = OnError (message_or e ''Failed to fetch job status'')" for c e h'
    by (auto simp add: fetchJob_catch_def Let_def split: option.splits)
  have complete: "OnComplete x \<in> set (fst (snd (fetchJob opts jobId response m h))) \<longrightarrow>
        response = Inr x \<and> status x = Completed"
    by (cases response)
       (auto simp add: fetchJob_def Let_def split_beta split: if_splits option.splits
             dest: catch_calls)
  have failed: "OnError msg \<in> set (fst (snd (fetchJob opts jobId response m h))) \<longrightarrow>
        (\<exists>jb'. response = Inr jb' \<and> status jb' = Failed) \<or> (\<exists>e. response = Inl e)
        \<or> (\<exists>jb' f e. response = Inr jb' \<and> status jb' = Completed \<and> onComplete opts = Some f
              \<and> f jb' = Some e \<and> msg = message_or e ''Failed to fetch job status'')"
    by (cases response)
       (auto simp add: fetchJob_def Let_def split_beta split: if_splits option.splits
             dest: catch_calls)
  from silent complete failed show ?thesis by (intro conjI)
qed

text \<open>
  Claim C9, an instance: a cancelled job with both callbacks supplied, beside a completed job
  and a poll that throws.
\<close>

theorem cancelled_job_is_silent_witness:
  "Some ''job-1'' \<noteq> None \<and> Some ''job-1'' \<noteq> Some [] \<and> mounted hook0
   \<and> status (a_job Cancelled None) = Cancelled
   \<and> fetchJob both_callbacks (Some ''job-1'') (Inr (a_job Cancelled None)) True hook0
        = (hook0\<lparr>job := Some (a_job Cancelled None), polling_error := None, interval := False\<rparr>,
           [], None)
   \<and> OnComplete (a_job Completed None)
        \<in> set (fst (snd (fetchJob both_callbacks (Some ''job-1'') (Inr (a_job Completed None)) True hook0)))
   \<and> status (a_job Completed None) = Completed
   \<and> OnError ''HTTP 502''
        \<in> set (fst (snd (fetchJob both_callbacks (Some ''job-1'') (Inl (Error ''HTTP 502'')) True hook0)))"
proof -
  have pre: "Some ''job-1'' \<noteq> None \<and> Some ''job-1'' \<noteq> Some [] \<and> mounted hook0
     \<and> status (a_job Cancelled None) = Cancelled"
    by (simp add: hook0_def a_job_def)
  have c: "OnComplete (a_job Completed None)
        \<in> set (fst (snd (fetchJob both_callbacks (Some ''job-1'') (Inr (a_job Completed None)) True hook0)))"
    by (simp add: fetchJob_def both_callbacks_def hook0_def a_job_def)
  have e: "OnError ''HTTP 502''
        \<in> set (fst (snd (fetchJob both_callbacks (Some ''job-1'') (Inl (Error ''HTTP 502'')) True hook0)))"
    by (simp add: fetchJob_def fetchJob_catch_def both_callbacks_def hook0_def message_or_def Let_def)
  note T1 = cancelled_job_is_silent
    [where jobId = "Some ''job-1''" and h = hook0 and jb = "a_job Cancelled None"
       and opts = both_callbacks,
     THEN conjunct1, rule_format, OF pre]
  note T2 = cancelled_job_is_silent
    [where jobId = "Some ''job-1''" and h = hook0 and opts = both_callbacks
       and x = "a_job Completed None" and response = "Inr (a_job Completed None)" and m = True,
     THEN conjunct2, THEN conjunct1, rule_format, OF c]
  from pre T1 c T2 e show ?thesis by simp
qed

text \<open>
  Claim C10, as stated, says that a cache miss stores the result of the call, and that
  \<open>clearApiCache\<close> with a key removes exactly that entry. When the component is unmounted
  while the call is under way, the call is made and its result is dropped: nothing is stored.
  And \<open>clearApiCache\<close> with the empty string as key empties the cache.
\<close>

theorem cache_miss_not_always_stored:
  "key_of (cacheKey keyed) = Some ''databases''
   \<and> execute keyed 1000 (Inr (5::nat)) False 1200 Map.empty idle
       = (Returned None, Map.empty, idle\<lparr>st_loading := True\<rparr>, [ApiCall])
   \<and> clearApiCache (Some [])
        ((Map.empty :: nat cache)(''databases'' \<mapsto> \<lparr>data = 5, timestamp = 1200\<rparr>)) ''databases'' = None"
  by (simp add: keyed_def key_of_def execute_def idle_def clearApiCache_def)

text \<open>
  Claim C10, amended (the cache of \<open>useApi\<close>). With a non-empty cache key: when the cache
  holds an entry for the key that is younger than the time to live, \<open>execute\<close> returns the
  entry's data and makes no call; otherwise it makes the call, and when the call succeeds
  with the component still mounted it stores the result under the key with the clock read at
  that moment, whatever \<open>onSuccess\<close> then does; it returns the result when \<open>onSuccess\<close>
  is absent or returns, and throws when \<open>onSuccess\<close> throws. A call that fails, or that
  ends after the component was unmounted, leaves the cache as it was. The time to live is
  30000 ms when none is given. \<open>clearApiCache\<close> with a non-empty key removes that entry
  and no other; without a key, or with the empty string as key, it removes every entry.
\<close>

theorem cache_contract:
  "(key_of (cacheKey opts) = Some k \<and> cache k = Some c \<and> now - timestamp c < ttl_of opts \<longrightarrow>
      execute opts now call m now' cache st
        = (Returned (Some (data c)), cache,
           \<lparr>st_data = Some (data c), st_loading = False, st_error = None\<rparr>, []))
   \<and> (key_of (cacheKey opts) = Some k
       \<and> (cache k = None \<or> (\<exists>c. cache k = Some c \<and> \<not> now - timestamp c < ttl_of opts)) \<longrightarrow>
      (\<exists>r cache' st' evs. execute opts now call m now' cache st = (r, cache', st', ApiCall # evs))
      \<and> fst (snd (execute opts now (Inr d) True now' cache st))
           = cache(k \<mapsto> \<lparr>data = d, timestamp = now'\<rparr>)
      \<and> (onSuccess opts = None \<or> (\<exists>f. onSuccess opts = Some f \<and> f d = None) \<longrightarrow>
           fst (execute opts now (Inr d) True now' cache st) = Returned (Some d))
      \<and> (\<forall>f e. onSuccess opts = Some f \<and> f d = Some e \<longrightarrow>
           (\<exists>e'. fst (execute opts now (Inr d) True now' cache st) = Threw e')))
   \<and> (\<not> m \<or> (\<exists>e. call = Inl e) \<longrightarrow>
        fst (snd (execute opts now call m now' cache st)) = cache)
   \<and> (cacheTTL opts = None \<longrightarrow> ttl_of opts = 30000)
   \<and> (k \<noteq> [] \<longrightarrow> clearApiCache (Some k) cache = cache(k := None))
   \<and> clearApiCache None cache = Map.empty
   \<and> clearApiCache (Some []) cache = Map.empty"
proof -
  have hit: "key_of (cacheKey opts) = Some k \<and> cache k = Some c \<and> now - timestamp c < ttl_of opts \<longrightarrow>
      execute opts now call m now' cache st
        = (Returned (Some (data c)), cache,
           \<lparr>st_data = Some (data c), st_loading = False, st_error = None\<rparr>, [])"
    by (simp add: execute_def)
  have thrown: "\<exists>e'. fst (execute_catch opts e st') = Threw e'" for e st'
    by (auto simp add: execute_catch_def Let_def split: option.splits)
  have miss: "key_of (cacheKey opts) = Some k
       \<and> (cache k = None \<or> (\<exists>c. cache k = Some c \<and> \<not> now - timestamp c < ttl_of opts)) \<longrightarrow>
      (\<exists>r cache' st' evs. execute opts now call m now' cache st = (r, cache', st', ApiCall # evs))
      \<and> fst (snd (execute opts now (Inr d) True now' cache st))
           = cache(k \<mapsto> \<lparr>data = d, timestamp = now'\<rparr>)
      \<and> (onSuccess opts = None \<or> (\<exists>f. onSuccess opts = Some f \<and> f d = None) \<longrightarrow>
           fst (execute opts now (Inr d) True now' cache st) = Returned (Some d))
      \<and> (\<forall>f e. onSuccess opts = Some f \<and> f d = Some e \<longrightarrow>
           (\<exists>e'. fst (execute opts now (Inr d) True now' cache st) = Threw e'))"
    using thrown
    by (cases call)
       (auto simp add: execute_def Let_def split_beta split: option.splits)
  have kept: "\<not> m \<or> (\<exists>e. call = Inl e) \<longrightarrow>
        fst (snd (execute opts now call m now' cache st)) = cache"
    by (cases call) (auto simp add: execute_def Let_def split_beta split: option.splits)
  have ttl: "cacheTTL opts = None \<longrightarrow> ttl_of opts = 30000"
    by (simp add: ttl_of_def DEFAULT_CACHE_TTL_def)
  have one: "k \<noteq> [] \<longrightarrow> clearApiCache (Some k) cache = cache(k := None)"
    by (simp add: clearApiCache_def key_of_def)
  have every: "clearApiCache None cache = Map.empty"
    by (simp add: clearApiCache_def key_of_def)
  have blank: "clearApiCache (Some []) cache = Map.empty"
    by (simp add: clearApiCache_def key_of_def)
  from hit miss kept ttl one every blank show ?thesis by (intro conjI)
qed

text \<open>
  Claim C10, an instance: an entry 19 seconds old is served from the cache; at 39 seconds
  it is replaced by the result of a new call; and clearing by key removes it.
\<close>

theorem cache_contract_witness:
  "key_of (cacheKey keyed) = Some ''databases''
   \<and> (20000::int) - 1000 < ttl_of keyed
   \<and> execute keyed 20000 (Inr 9) True 20500
        (Map.empty(''databases'' \<mapsto> \<lparr>data = 5, timestamp = 1000\<rparr>)) idle
       = (Returned (Some 5), Map.empty(''databases'' \<mapsto> \<lparr>data = 5, timestamp = 1000\<rparr>),
          \<lparr>st_data = Some 5, st_loading = False, st_error = None\<rparr>, [])
   \<and> \<not> (40000::int) - 1000 < ttl_of keyed
   \<and> onSuccess keyed = None
   \<and> fst (execute keyed 40000 (Inr 9) True 40500
        (Map.empty(''databases'' \<mapsto> \<lparr>data = 5, timestamp = 1000\<rparr>)) idle) = Returned (Some 9)
   \<and> fst (snd (execute keyed 40000 (Inr 9) True 40500
        (Map.empty(''databases'' \<mapsto> \<lparr>data = 5, timestamp = 1000\<rparr>)) idle))
       = (Map.empty(''databases'' \<mapsto> \<lparr>data = 5, timestamp = 1000\<rparr>))
           (''databases'' \<mapsto> \<lparr>data = 9, timestamp = 40500\<rparr>)
   \<and> clearApiCache (Some ''databases'')
        (Map.empty(''databases'' \<mapsto> \<lparr>data = 5::nat, timestamp = 1000\<rparr>))
       = (Map.empty(''databases'' \<mapsto> \<lparr>data = 5, timestamp = 1000\<rparr>))(''databases'' := None)"
proof -
  let ?c = "Map.empty(''databases'' \<mapsto> \<lparr>data = 5::nat, timestamp = 1000\<rparr>)"
  have k: "key_of (cacheKey keyed) = Some ''databases''"
    by (simp add: keyed_def key_of_def)
  have t: "ttl_of keyed = 30000"
    by (simp add: keyed_def ttl_of_def DEFAULT_CACHE_TTL_def)
  have hit: "key_of (cacheKey keyed) = Some ''databases''
      \<and> ?c ''databases'' = Some \<lparr>data = 5, timestamp = 1000\<rparr>
      \<and> 20000 - timestamp \<lparr>data = 5::nat, timestamp = 1000\<rparr> < ttl_of keyed"
    using k t by simp
  have miss: "key_of (cacheKey keyed) = Some ''databases''
      \<and> (?c ''databases'' = None
          \<or> (\<exists>c. ?c ''databases'' = Some c \<and> \<not> 40000 - timestamp c < ttl_of keyed))"
    using k t by simp
  have ne: "''databases'' \<noteq> []" by simp
  have os: "onSuccess keyed = None" by (simp add: keyed_def)
  then have rh: "onSuccess keyed = None \<or> (\<exists>f. onSuccess keyed = Some f \<and> f 9 = None)" by simp
  note H = cache_contract [where opts = keyed and k = "''databases''" and cache = ?c
      and c = "\<lparr>data = 5, timestamp = 1000\<rparr>" and now = 20000 and call = "Inr 9" and m = True
      and now' = 20500 and st = idle, THEN conjunct1, rule_format, OF hit]
  note M = cache_contract [where opts = keyed and k = "''databases''" and cache = ?c
      and now = 40000 and call = "Inr 9" and m = True and d = 9
      and now' = 40500 and st = idle, THEN conjunct2, THEN conjunct1, rule_format, OF miss]
  note M1 = M [THEN conjunct2, THEN conjunct1]
  note M2 = M [THEN conjunct2, THEN conjunct2, THEN conjunct1, rule_format, OF rh]
  note C = cache_contract [where k = "''databases''" and cache = ?c,
      THEN conjunct2, THEN conjunct2, THEN conjunct2, THEN conjunct2, THEN conjunct1,
      rule_format, OF ne]
  from k t os H M1 M2 C show ?thesis by simp
qed

end
